theory Spec2Isabelle
  imports Main
begin

section \<open>Data model of digital\_identity.py\<close>

text \<open>
  The program keeps all of its state in one SQLite database with four tables
  (\<open>init_db\<close>): identities, documents, kyc\_requests and audit\_log.  A table is
  modelled as the list of its rows in insertion (rowid) order, a row as a record with
  one field per column.  Where two tables have a column of the same name the later
  record prefixes it (\<open>doc_identity_id\<close>, \<open>kyc_identity_id\<close>, \<open>kyc_status\<close>, \<open>kyc_notes\<close>,
  \<open>log_identity_id\<close>).

  The columns \<open>verification_level\<close>, \<open>requested_level\<close> and \<open>doc_type\<close> stay strings:
  \<open>initiate_kyc\<close> and \<open>submit_document\<close> store a caller's plain string as it is
  (\<open>x.value if isinstance(x, Enum) else x\<close>), and \<open>_check_doc_requirements\<close> compares
  strings.  The two status columns are only ever written from the members of
  \<open>IdentityStatus\<close> and \<open>KYCStatus\<close>, so they are datatypes; the \<open>_value\<close> functions
  give the stored text.
\<close>

datatype IdentityStatus = ACTIVE | REVOKED | EXPIRED | SUSPENDED

datatype KYCStatus = PENDING | PROCESSING | APPROVED | REJECTED

fun IdentityStatus_value :: "IdentityStatus \<Rightarrow> string" where
  "IdentityStatus_value ACTIVE = ''active''"
| "IdentityStatus_value REVOKED = ''revoked''"
| "IdentityStatus_value EXPIRED = ''expired''"
| "IdentityStatus_value SUSPENDED = ''suspended''"

fun KYCStatus_value :: "KYCStatus \<Rightarrow> string" where
  "KYCStatus_value PENDING = ''pending''"
| "KYCStatus_value PROCESSING = ''processing''"
| "KYCStatus_value APPROVED = ''approved''"
| "KYCStatus_value REJECTED = ''rejected''"

text \<open>The values of \<open>VerificationLevel\<close> and \<open>DocType\<close>.\<close>

definition UNVERIFIED :: string where "UNVERIFIED = ''unverified''"
definition BASIC :: string where "BASIC = ''basic''"
definition STANDARD :: string where "STANDARD = ''standard''"
definition ENHANCED :: string where "ENHANCED = ''enhanced''"

definition PASSPORT :: string where "PASSPORT = ''passport''"
definition LICENSE :: string where "LICENSE = ''license''"
definition NATIONAL_ID :: string where "NATIONAL_ID = ''national_id''"
definition UTILITY_BILL :: string where "UTILITY_BILL = ''utility_bill''"

record identity_row =
  identity_id :: string
  holder_name :: string
  holder_email :: string
  biometric_hash :: "string option"
  verification_level :: string
  status :: IdentityStatus
  issued_at :: string
  expires_at :: string

record document_row =
  doc_id :: string
  doc_identity_id :: string
  doc_type :: string
  number :: string
  issuing_country :: string
  expiry :: string
  verified :: bool
  verified_at :: "string option"

record kyc_row =
  request_id :: string
  kyc_identity_id :: string
  requested_level :: string
  documents_submitted :: "string list"
  kyc_status :: KYCStatus
  kyc_notes :: string
  processed_at :: "string option"
  created_at :: string

record audit_row =
  log_id :: string
  log_identity_id :: string
  action :: string
  details :: string
  timestamp :: string

record db =
  identities :: "identity_row list"
  documents :: "document_row list"
  kyc_requests :: "kyc_row list"
  audit_log :: "audit_row list"

text \<open>
  What the program raises: \<open>ValueError\<close> for an unknown id (\<open>NotFound\<close>) and for a
  request or identity in the wrong state (\<open>InvalidState\<close>), \<open>ValueError\<close> from
  \<open>VerificationLevel(requested_level)\<close> on a string that is no member
  (\<open>InvalidEnumValue\<close>), \<open>sqlite3.IntegrityError\<close> for an INSERT that breaks a
  PRIMARY KEY or UNIQUE constraint, and \<open>sqlite3.OperationalError\<close> for a statement with
  more host parameters than SQLite allows.  Every operation returns its result together
  with the database as the call leaves it.
\<close>

datatype error = NotFound | InvalidState | InvalidEnumValue | IntegrityError | OperationalError

section \<open>The KYC decision rule\<close>

text \<open>
  \<open>_check_doc_requirements(level, docs)\<close>: \<open>doc_types\<close> is the set of the rows' types,
  \<open>primary & doc_types\<close> is non-empty when one of the two primary types is in it.
\<close>

definition check_doc_requirements :: "string \<Rightarrow> document_row list \<Rightarrow> bool" where
  "check_doc_requirements level docs =
     (let doc_types = set (map doc_type docs) in
      if level = BASIC then length docs \<ge> 1
      else if level = STANDARD then length docs \<ge> 2
      else if level = ENHANCED then
        (let primary = {PASSPORT, NATIONAL_ID} in
         length docs \<ge> 3 \<and> primary \<inter> doc_types \<noteq> {})
      else True)"

section \<open>The audit log\<close>

text \<open>
  The values the program draws from its environment (\<open>uuid.uuid4()\<close>,
  \<open>datetime.utcnow().isoformat()\<close>) are arguments of the model: \<open>lid\<close> and \<open>lts\<close> are
  the id and the timestamp \<open>_log_action\<close> generates.  An id that is already a key of
  the table makes the INSERT fail, as SQLite's PRIMARY KEY does.
\<close>

definition log_action ::
  "string \<Rightarrow> string \<Rightarrow> string \<Rightarrow> string \<Rightarrow> string \<Rightarrow> db \<Rightarrow> (error + unit) \<times> db" where
  "log_action iid act det lid lts d =
     (if lid \<in> set (map log_id (audit_log d)) then (Inl IntegrityError, d)
      else (Inr (),
            d\<lparr>audit_log := audit_log d @
               [\<lparr>log_id = lid, log_identity_id = iid, action = act, details = det,
                 timestamp = lts\<rparr>]\<rparr>))"

text \<open>
  An operation that has committed its own change and then logs: the result \<open>r\<close> is
  returned when the log entry could be written.
\<close>

definition then_log ::
  "string \<Rightarrow> string \<Rightarrow> string \<Rightarrow> string \<Rightarrow> string \<Rightarrow> 'a \<Rightarrow> db \<Rightarrow> (error + 'a) \<times> db" where
  "then_log iid act det lid lts r d =
     (case log_action iid act det lid lts d of
        (Inl e, d') \<Rightarrow> (Inl e, d')
      | (Inr u, d') \<Rightarrow> (Inr r, d'))"

section \<open>Mutating operations\<close>

definition find_identity :: "db \<Rightarrow> string \<Rightarrow> identity_row option" where
  "find_identity d iid = find (\<lambda>i. identity_id i = iid) (identities d)"

definition find_request :: "db \<Rightarrow> string \<Rightarrow> kyc_row option" where
  "find_request d rid = find (\<lambda>r. request_id r = rid) (kyc_requests d)"

text \<open>\<open>UPDATE identities SET status=? WHERE identity_id=?\<close>\<close>

definition set_status :: "string \<Rightarrow> IdentityStatus \<Rightarrow> db \<Rightarrow> db" where
  "set_status iid st d =
     d\<lparr>identities := map (\<lambda>i. if identity_id i = iid then i\<lparr>status := st\<rparr> else i) (identities d)\<rparr>"

text \<open>\<open>UPDATE identities SET verification_level=? WHERE identity_id=?\<close>\<close>

definition set_level :: "string \<Rightarrow> string \<Rightarrow> db \<Rightarrow> db" where
  "set_level iid lvl d =
     d\<lparr>identities :=
         map (\<lambda>i. if identity_id i = iid then i\<lparr>verification_level := lvl\<rparr> else i) (identities d)\<rparr>"

text \<open>
  \<open>create_identity\<close>.  \<open>sha256\<close> stands for
  \<open>hashlib.sha256(s.encode()).hexdigest()\<close>; \<open>new_id\<close>, \<open>issued\<close> and \<open>expires\<close> are the
  defaults the \<open>Identity\<close> dataclass generates.  The INSERT fails when the id or the
  email (UNIQUE) is already stored; nothing has been committed then.  \<open>init_db\<close> only
  creates tables that do not exist yet, so it changes nothing here.
\<close>

definition create_identity ::
  "(string \<Rightarrow> string) \<Rightarrow> string \<Rightarrow> string \<Rightarrow> string option \<Rightarrow> string \<Rightarrow> string \<Rightarrow> string
     \<Rightarrow> string \<Rightarrow> string \<Rightarrow> db \<Rightarrow> (error + identity_row) \<times> db" where
  "create_identity sha256 name email biometric_data new_id issued expires lid lts d =
     (let bh = (case biometric_data of
                  None \<Rightarrow> None
                | Some b \<Rightarrow> if b \<noteq> [] then Some (sha256 b) else None);
          identity = \<lparr>identity_id = new_id, holder_name = name, holder_email = email,
                      biometric_hash = bh, verification_level = UNVERIFIED, status = ACTIVE,
                      issued_at = issued, expires_at = expires\<rparr>
      in if new_id \<in> set (map identity_id (identities d))
            \<or> email \<in> set (map holder_email (identities d))
         then (Inl IntegrityError, d)
         else then_log new_id ''CREATE_IDENTITY'' (''Created identity for '' @ email) lid lts
                identity (d\<lparr>identities := identities d @ [identity]\<rparr>))"

text \<open>
  \<open>submit_document\<close>.  \<open>dtype\<close> is the string stored in the column (a \<open>DocType\<close>'s value,
  or the caller's string).  \<open>shown\<close> is the text the f-string of the log entry prints for
  the \<open>doc_type\<close> argument: the string itself for a plain string; for a \<open>DocType\<close> member
  its value up to Python 3.10 and \<open>DocType.PASSPORT\<close> and the like from Python 3.11 on.
\<close>

definition submit_document ::
  "string \<Rightarrow> string \<Rightarrow> string \<Rightarrow> string \<Rightarrow> string \<Rightarrow> string \<Rightarrow> string \<Rightarrow> string \<Rightarrow> string \<Rightarrow> db
     \<Rightarrow> (error + document_row) \<times> db" where
  "submit_document iid dtype shown num country exp new_id lid lts d =
     (let doc = \<lparr>doc_id = new_id, doc_identity_id = iid, doc_type = dtype, number = num,
                 issuing_country = country, expiry = exp, verified = False,
                 verified_at = None\<rparr>
      in case find_identity d iid of
           None \<Rightarrow> (Inl NotFound, d)
         | Some row \<Rightarrow>
             if new_id \<in> set (map doc_id (documents d)) then (Inl IntegrityError, d)
             else then_log iid ''SUBMIT_DOCUMENT'' (''Submitted '' @ shown @ '' document'') lid lts
                    doc (d\<lparr>documents := documents d @ [doc]\<rparr>))"

definition verify_document ::
  "string \<Rightarrow> string \<Rightarrow> string \<Rightarrow> string \<Rightarrow> string \<Rightarrow> db \<Rightarrow> (error + bool) \<times> db" where
  "verify_document iid did now lid lts d =
     (case find (\<lambda>x. doc_id x = did \<and> doc_identity_id x = iid) (documents d) of
        None \<Rightarrow> (Inl NotFound, d)
      | Some row \<Rightarrow>
          then_log iid ''VERIFY_DOCUMENT'' (''Document '' @ did @ '' verified'') lid lts True
            (d\<lparr>documents :=
                 map (\<lambda>x. if doc_id x = did then x\<lparr>verified := True, verified_at := Some now\<rparr>
                          else x) (documents d)\<rparr>))"

text \<open>
  \<open>initiate_kyc\<close>: the request stores the ids of the identity's documents that are
  verified now.  \<open>json.dumps\<close> and \<open>json.loads\<close> of a list of strings give the list back,
  so the column holds the list.  \<open>lvl\<close> is the string stored as requested level, \<open>shown\<close>
  the text the f-string of the log entry prints for the \<open>requested_level\<close> argument (for a
  \<open>VerificationLevel\<close> member its value up to Python 3.10, \<open>VerificationLevel.BASIC\<close> and
  the like from Python 3.11 on).
\<close>

definition initiate_kyc ::
  "string \<Rightarrow> string \<Rightarrow> string \<Rightarrow> string \<Rightarrow> string \<Rightarrow> string \<Rightarrow> string \<Rightarrow> db
     \<Rightarrow> (error + kyc_row) \<times> db" where
  "initiate_kyc iid lvl shown new_id created lid lts d =
     (case find_identity d iid of
        None \<Rightarrow> (Inl NotFound, d)
      | Some row \<Rightarrow>
          (let docs = filter (\<lambda>x. doc_identity_id x = iid \<and> verified x) (documents d);
               doc_ids = map doc_id docs;
               req = \<lparr>request_id = new_id, kyc_identity_id = iid, requested_level = lvl,
                      documents_submitted = doc_ids, kyc_status = PENDING, kyc_notes = [],
                      processed_at = None, created_at = created\<rparr>
           in if new_id \<in> set (map request_id (kyc_requests d)) then (Inl IntegrityError, d)
              else then_log iid ''INITIATE_KYC'' (''KYC requested for level '' @ shown) lid lts
                     req (d\<lparr>kyc_requests := kyc_requests d @ [req]\<rparr>)))"

text \<open>
  \<open>process_kyc\<close>.  \<open>fetch_docs\<close> is the SELECT over the snapshot's ids (no query when the
  snapshot is empty).  The statement has one host parameter for each id, and SQLite
  refuses a statement with more of them than its limit \<open>max_vars\<close>
  (SQLITE\_LIMIT\_VARIABLE\_NUMBER, a constant of the SQLite library in use: 999 before
  version 3.32, 32766 since); the limit is an argument of the model.
  \<open>update_request\<close> is an UPDATE of kyc\_requests by request id; \<open>is_level\<close> says
  whether \<open>VerificationLevel(s)\<close> succeeds.  The first UPDATE (PROCESSING) is committed
  before the documents are fetched: when the SELECT is refused the call raises and the
  request stays PROCESSING.  Otherwise the second UPDATE overwrites the first.  The
  \<open>KYCRequest\<close> that is returned is built after the log entry is written, and building
  it raises when the requested level is no member of \<open>VerificationLevel\<close>.
\<close>

definition fetch_docs :: "nat \<Rightarrow> string list \<Rightarrow> db \<Rightarrow> error + document_row list" where
  "fetch_docs max_vars doc_ids d =
     (if doc_ids \<noteq> [] then
        (if length doc_ids > max_vars then Inl OperationalError
         else Inr (filter (\<lambda>x. doc_id x \<in> set doc_ids) (documents d)))
      else Inr [])"

definition update_request :: "string \<Rightarrow> (kyc_row \<Rightarrow> kyc_row) \<Rightarrow> db \<Rightarrow> db" where
  "update_request rid f d =
     d\<lparr>kyc_requests := map (\<lambda>r. if request_id r = rid then f r else r) (kyc_requests d)\<rparr>"

definition is_level :: "string \<Rightarrow> bool" where
  "is_level s = (s \<in> {UNVERIFIED, BASIC, STANDARD, ENHANCED})"

definition process_kyc ::
  "nat \<Rightarrow> string \<Rightarrow> string \<Rightarrow> string \<Rightarrow> string \<Rightarrow> db \<Rightarrow> (error + kyc_row) \<times> db" where
  "process_kyc max_vars rid now lid lts d =
     (case find_request d rid of
        None \<Rightarrow> (Inl NotFound, d)
      | Some row \<Rightarrow>
          if kyc_status row \<noteq> PENDING then (Inl InvalidState, d)
          else
            (let d1 = update_request rid
                        (\<lambda>r. r\<lparr>kyc_status := PROCESSING, processed_at := Some now\<rparr>) d;
                 doc_ids = documents_submitted row
             in case fetch_docs max_vars doc_ids d1 of
                  Inl e \<Rightarrow> (Inl e, d1)
                | Inr docs \<Rightarrow>
                    (let all_verified = (length docs > 0 \<and> list_all verified docs);
                         lvl = requested_level row;
                         meets_doc_requirements = check_doc_requirements lvl docs;
                         approve = (all_verified \<and> meets_doc_requirements);
                         new_status = (if approve then APPROVED else REJECTED);
                         nts = (if approve then ''All documents verified and requirements met.''
                                else ''Insufficient verified documents or requirements not met.'');
                         d2 = (if approve then set_level (kyc_identity_id row) lvl d1 else d1);
                         d3 = update_request rid
                                (\<lambda>r. r\<lparr>kyc_status := new_status, kyc_notes := nts,
                                        processed_at := Some now\<rparr>) d2;
                         req = \<lparr>request_id = rid, kyc_identity_id = kyc_identity_id row,
                                requested_level = lvl, documents_submitted = doc_ids,
                                kyc_status = new_status, kyc_notes = nts,
                                processed_at = Some now, created_at = created_at row\<rparr>
                     in case log_action (kyc_identity_id row) ''PROCESS_KYC''
                               (''KYC '' @ rid @ '': '' @ KYCStatus_value new_status) lid lts d3 of
                          (Inl e, d4) \<Rightarrow> (Inl e, d4)
                        | (Inr u, d4) \<Rightarrow>
                            if is_level lvl then (Inr req, d4)
                            else (Inl InvalidEnumValue, d4))))"

definition revoke_identity ::
  "string \<Rightarrow> string \<Rightarrow> string \<Rightarrow> string \<Rightarrow> db \<Rightarrow> (error + bool) \<times> db" where
  "revoke_identity iid reason lid lts d =
     (case find_identity d iid of
        None \<Rightarrow> (Inl NotFound, d)
      | Some row \<Rightarrow>
          then_log iid ''REVOKE_IDENTITY'' (''Reason: '' @ reason) lid lts True
            (set_status iid REVOKED d))"

definition suspend_identity ::
  "string \<Rightarrow> string \<Rightarrow> string \<Rightarrow> string \<Rightarrow> db \<Rightarrow> (error + bool) \<times> db" where
  "suspend_identity iid reason lid lts d =
     (case find_identity d iid of
        None \<Rightarrow> (Inl NotFound, d)
      | Some row \<Rightarrow>
          then_log iid ''SUSPEND_IDENTITY'' (''Reason: '' @ reason) lid lts True
            (set_status iid SUSPENDED d))"

definition reactivate_identity ::
  "string \<Rightarrow> string \<Rightarrow> string \<Rightarrow> db \<Rightarrow> (error + bool) \<times> db" where
  "reactivate_identity iid lid lts d =
     (case find_identity d iid of
        None \<Rightarrow> (Inl NotFound, d)
      | Some row \<Rightarrow>
          if status row \<noteq> SUSPENDED then (Inl InvalidState, d)
          else then_log iid ''REACTIVATE_IDENTITY'' ''Identity reactivated'' lid lts True
                 (set_status iid ACTIVE d))"

text \<open>
  \<open>expire_old_identities\<close>: \<open>expires_at < ?\<close> compares two TEXT values, which SQLite
  does byte by byte, a proper prefix being smaller (\<open>text_lt\<close>).  The function returns
  the number of rows the UPDATE changed and does not call \<open>_log_action\<close>.
\<close>

fun text_lt :: "string \<Rightarrow> string \<Rightarrow> bool" where
  "text_lt [] [] = False"
| "text_lt [] (y # ys) = True"
| "text_lt (x # xs) [] = False"
| "text_lt (x # xs) (y # ys) =
     (if (of_char x :: nat) < of_char y then True
      else if x = y then text_lt xs ys
      else False)"

definition expire_old_identities :: "string \<Rightarrow> db \<Rightarrow> (error + nat) \<times> db" where
  "expire_old_identities now d =
     (let hit = (\<lambda>i. text_lt (expires_at i) now \<and> status i = ACTIVE);
          count = length (filter hit (identities d))
      in (Inr count,
          d\<lparr>identities := map (\<lambda>i. if hit i then i\<lparr>status := EXPIRED\<rparr> else i) (identities d)\<rparr>))"

section \<open>Read-only operations\<close>

text \<open>
  These functions only run SELECT statements.  \<open>ORDER BY\<close> is modelled by a stable
  insertion sort on the TEXT column (SQL leaves the order of rows with equal keys
  open); \<open>LIKE\<close> follows SQLite: \<open>%\<close> matches any run of characters, \<open>_\<close> one
  character, and ASCII letters match without regard to case.
\<close>

fun insert_asc :: "('a \<Rightarrow> string) \<Rightarrow> 'a \<Rightarrow> 'a list \<Rightarrow> 'a list" where
  "insert_asc k x [] = [x]"
| "insert_asc k x (y # ys) =
     (if text_lt (k x) (k y) then x # y # ys else y # insert_asc k x ys)"

fun insert_desc :: "('a \<Rightarrow> string) \<Rightarrow> 'a \<Rightarrow> 'a list \<Rightarrow> 'a list" where
  "insert_desc k x [] = [x]"
| "insert_desc k x (y # ys) =
     (if text_lt (k y) (k x) then x # y # ys else y # insert_desc k x ys)"

definition order_by_asc :: "('a \<Rightarrow> string) \<Rightarrow> 'a list \<Rightarrow> 'a list" where
  "order_by_asc k xs = foldl (\<lambda>acc x. insert_asc k x acc) [] xs"

definition order_by_desc :: "('a \<Rightarrow> string) \<Rightarrow> 'a list \<Rightarrow> 'a list" where
  "order_by_desc k xs = foldl (\<lambda>acc x. insert_desc k x acc) [] xs"

definition ascii_lower :: "char \<Rightarrow> char" where
  "ascii_lower c =
     (let n = (of_char c :: nat) in if 65 \<le> n \<and> n \<le> 90 then char_of (n + 32) else c)"

fun like :: "string \<Rightarrow> string \<Rightarrow> bool" where
  "like [] [] = True"
| "like [] (c # cs) = False"
| "like (p # ps) [] = (p = CHR ''%'' \<and> like ps [])"
| "like (p # ps) (c # cs) =
     (if p = CHR ''%'' then like ps (c # cs) \<or> like (p # ps) cs
      else (p = CHR ''_'' \<or> ascii_lower p = ascii_lower c) \<and> like ps cs)"

record verification_info =
  info_identity_id :: string
  info_holder_name :: string
  info_holder_email :: string
  info_verification_level :: string
  info_status :: string
  info_issued_at :: string
  info_expires_at :: string
  total_documents :: nat
  verified_documents :: nat
  pending_kyc_requests :: nat
  last_kyc_status :: "string option"

definition check_verification_level :: "string \<Rightarrow> db \<Rightarrow> (error + verification_info) \<times> db" where
  "check_verification_level iid d =
     (case find_identity d iid of
        None \<Rightarrow> (Inl NotFound, d)
      | Some row \<Rightarrow>
          (let docs = filter (\<lambda>x. doc_identity_id x = iid) (documents d);
               reqs = order_by_desc created_at
                        (filter (\<lambda>r. kyc_identity_id r = iid) (kyc_requests d));
               verified_docs = filter verified docs;
               pending_kyc = filter (\<lambda>k. kyc_status k = PENDING \<or> kyc_status k = PROCESSING) reqs
           in (Inr \<lparr>info_identity_id = iid, info_holder_name = holder_name row,
                     info_holder_email = holder_email row,
                     info_verification_level = verification_level row,
                     info_status = IdentityStatus_value (status row),
                     info_issued_at = issued_at row, info_expires_at = expires_at row,
                     total_documents = length docs, verified_documents = length verified_docs,
                     pending_kyc_requests = length pending_kyc,
                     last_kyc_status =
                       (case reqs of [] \<Rightarrow> None | k # ks \<Rightarrow> Some (KYCStatus_value (kyc_status k)))\<rparr>,
               d)))"

definition get_audit_trail :: "string \<Rightarrow> db \<Rightarrow> (error + audit_row list) \<times> db" where
  "get_audit_trail iid d =
     (Inr (order_by_asc timestamp (filter (\<lambda>a. log_identity_id a = iid) (audit_log d))), d)"

text \<open>\<open>if status:\<close> and \<open>if level:\<close> skip a filter that is \<open>None\<close> or the empty string.\<close>

definition list_identities ::
  "string option \<Rightarrow> string option \<Rightarrow> db \<Rightarrow> (error + identity_row list) \<times> db" where
  "list_identities st lvl d =
     (let by_status = (\<lambda>i. case st of None \<Rightarrow> True
                           | Some s \<Rightarrow> s = [] \<or> IdentityStatus_value (status i) = s);
          by_level = (\<lambda>i. case lvl of None \<Rightarrow> True
                          | Some l \<Rightarrow> l = [] \<or> verification_level i = l)
      in (Inr (filter (\<lambda>i. by_status i \<and> by_level i) (identities d)), d))"

text \<open>
  \<open>identity_stats\<close>.  The dictionary it returns also has \<open>verification_rate\<close>, a rounded
  floating-point quotient of the two document counts; that entry is left out here.
\<close>

record stats =
  total_identities :: nat
  by_verification_level :: "(string \<times> nat) list"
  by_status :: "(string \<times> nat) list"
  stats_pending_kyc_requests :: nat
  stats_total_documents :: nat
  stats_verified_documents :: nat

definition identity_stats :: "db \<Rightarrow> (error + stats) \<times> db" where
  "identity_stats d =
     (Inr \<lparr>total_identities = length (identities d),
           by_verification_level =
             map (\<lambda>l. (l, length (filter (\<lambda>i. verification_level i = l) (identities d))))
               [UNVERIFIED, BASIC, STANDARD, ENHANCED],
           by_status =
             map (\<lambda>s. (IdentityStatus_value s, length (filter (\<lambda>i. status i = s) (identities d))))
               [ACTIVE, REVOKED, EXPIRED, SUSPENDED],
           stats_pending_kyc_requests =
             length (filter (\<lambda>k. kyc_status k = PENDING \<or> kyc_status k = PROCESSING)
                       (kyc_requests d)),
           stats_total_documents = length (documents d),
           stats_verified_documents = length (filter verified (documents d))\<rparr>,
      d)"

definition search_identity :: "string \<Rightarrow> db \<Rightarrow> (error + identity_row list) \<times> db" where
  "search_identity q d =
     (let pat = ''%'' @ q @ ''%''
      in (Inr (filter (\<lambda>i. like pat (holder_name i) \<or> like pat (holder_email i)) (identities d)),
          d))"

definition get_documents :: "string \<Rightarrow> db \<Rightarrow> (error + document_row list) \<times> db" where
  "get_documents iid d = (Inr (filter (\<lambda>x. doc_identity_id x = iid) (documents d)), d)"

definition get_kyc_history :: "string \<Rightarrow> db \<Rightarrow> (error + kyc_row list) \<times> db" where
  "get_kyc_history iid d =
     (Inr (order_by_desc created_at (filter (\<lambda>r. kyc_identity_id r = iid) (kyc_requests d))), d)"

text \<open>
  \<open>generate_identity_report\<close> calls four of the functions above, one after the other
  on the database the previous one left, and formats what they return as text.  The
  model returns the four values the text is made of (of the audit trail, its last
  five entries) and leaves the formatting out.
\<close>

definition generate_identity_report ::
  "string \<Rightarrow> db
     \<Rightarrow> (error + verification_info \<times> document_row list \<times> kyc_row list \<times> audit_row list) \<times> db" where
  "generate_identity_report iid d =
     (case check_verification_level iid d of
        (Inl e, d1) \<Rightarrow> (Inl e, d1)
      | (Inr info, d1) \<Rightarrow>
          (case get_documents iid d1 of
             (Inl e, d2) \<Rightarrow> (Inl e, d2)
           | (Inr docs, d2) \<Rightarrow>
               (case get_kyc_history iid d2 of
                  (Inl e, d3) \<Rightarrow> (Inl e, d3)
                | (Inr kyc, d3) \<Rightarrow>
                    (case get_audit_trail iid d3 of
                       (Inl e, d4) \<Rightarrow> (Inl e, d4)
                     | (Inr audit, d4) \<Rightarrow>
                         (Inr (info, docs, kyc, drop (length audit - 5) audit), d4)))))"

section \<open>Sequences of calls\<close>

text \<open>
  One constructor per public function, with the call's arguments and the values it
  draws from its environment.  What does not change from call to call is in \<open>env\<close>: the
  hash function (\<open>sha256\<close> stands for \<open>hashlib.sha256(s.encode()).hexdigest()\<close>) and
  SQLite's limit on host parameters.  \<open>step\<close> gives the database a call leaves, whether
  it returned or raised; \<open>run\<close> makes the calls of a list in order.
\<close>

record env =
  sha256 :: "string \<Rightarrow> string"
  max_variable_number :: nat

datatype call =
    CreateIdentity string string "string option" string string string string string
  | SubmitDocument string string string string string string string string string
  | VerifyDocument string string string string string
  | InitiateKyc string string string string string string string
  | ProcessKyc string string string string
  | RevokeIdentity string string string string
  | SuspendIdentity string string string string
  | ReactivateIdentity string string string
  | ExpireOldIdentities string
  | CheckVerificationLevel string
  | GetDocuments string
  | GetKycHistory string
  | GetAuditTrail string
  | ListIdentities "string option" "string option"
  | SearchIdentity string
  | IdentityStats
  | GenerateIdentityReport string

fun step :: "env \<Rightarrow> call \<Rightarrow> db \<Rightarrow> db" where
  "step e (CreateIdentity name email bio new_id issued expires lid lts) d =
     snd (create_identity (sha256 e) name email bio new_id issued expires lid lts d)"
| "step e (SubmitDocument iid dtype shown num country exp new_id lid lts) d =
     snd (submit_document iid dtype shown num country exp new_id lid lts d)"
| "step e (VerifyDocument iid did now lid lts) d = snd (verify_document iid did now lid lts d)"
| "step e (InitiateKyc iid lvl shown new_id created lid lts) d =
     snd (initiate_kyc iid lvl shown new_id created lid lts d)"
| "step e (ProcessKyc rid now lid lts) d =
     snd (process_kyc (max_variable_number e) rid now lid lts d)"
| "step e (RevokeIdentity iid reason lid lts) d = snd (revoke_identity iid reason lid lts d)"
| "step e (SuspendIdentity iid reason lid lts) d = snd (suspend_identity iid reason lid lts d)"
| "step e (ReactivateIdentity iid lid lts) d = snd (reactivate_identity iid lid lts d)"
| "step e (ExpireOldIdentities now) d = snd (expire_old_identities now d)"
| "step e (CheckVerificationLevel iid) d = snd (check_verification_level iid d)"
| "step e (GetDocuments iid) d = snd (get_documents iid d)"
| "step e (GetKycHistory iid) d = snd (get_kyc_history iid d)"
| "step e (GetAuditTrail iid) d = snd (get_audit_trail iid d)"
| "step e (ListIdentities st lvl) d = snd (list_identities st lvl d)"
| "step e (SearchIdentity q) d = snd (search_identity q d)"
| "step e IdentityStats d = snd (identity_stats d)"
| "step e (GenerateIdentityReport iid) d = snd (generate_identity_report iid d)"

fun run :: "env \<Rightarrow> call list \<Rightarrow> db \<Rightarrow> db" where
  "run e [] d = d"
| "run e (c # cs) d = run e cs (step e c d)"

definition empty_db :: db where
  "empty_db = \<lparr>identities = [], documents = [], kyc_requests = [], audit_log = []\<rparr>"

section \<open>Notions used in the statements and proofs\<close>

text \<open>
  \<open>snapshot_docs ids d\<close> are the stored documents whose id is in \<open>ids\<close>: what the SELECT
  of \<open>process_kyc\<close> returns when SQLite accepts it.  \<open>approves row d\<close> is the condition
  \<open>all_verified and meets_doc_requirements\<close> that \<open>process_kyc\<close> computes from them for the
  request \<open>row\<close>.  \<open>outcome max_vars row d\<close> is the status \<open>process_kyc\<close> leaves a pending
  request with: PROCESSING when the SELECT is refused, else APPROVED or REJECTED.
  \<open>decided st now\<close> is what the UPDATEs of \<open>process_kyc\<close> do to the request's row when
  they leave it with status \<open>st\<close>.
\<close>

definition snapshot_docs :: "string list \<Rightarrow> db \<Rightarrow> document_row list" where
  "snapshot_docs ids d = filter (\<lambda>x. doc_id x \<in> set ids) (documents d)"

definition approves :: "kyc_row \<Rightarrow> db \<Rightarrow> bool" where
  "approves row d =
     (let docs = snapshot_docs (documents_submitted row) d
      in docs \<noteq> [] \<and> list_all verified docs \<and> check_doc_requirements (requested_level row) docs)"

definition outcome :: "nat \<Rightarrow> kyc_row \<Rightarrow> db \<Rightarrow> KYCStatus" where
  "outcome max_vars row d =
     (if length (documents_submitted row) > max_vars then PROCESSING
      else if approves row d then APPROVED
      else REJECTED)"

definition decided :: "KYCStatus \<Rightarrow> string \<Rightarrow> kyc_row \<Rightarrow> kyc_row" where
  "decided st now r =
     r\<lparr>kyc_status := st,
       kyc_notes := (if st = APPROVED then ''All documents verified and requirements met.''
                     else if st = REJECTED
                       then ''Insufficient verified documents or requirements not met.''
                     else kyc_notes r),
       processed_at := Some now\<rparr>"

text \<open>
  \<open>suspends i c\<close>: the call \<open>c\<close> is \<open>suspend_identity\<close> with identity id \<open>i\<close>.
  \<open>terminal_kept i xs ys\<close>: the identities table \<open>ys\<close> has, at every position of \<open>xs\<close>, a
  row with the same id; where that id is \<open>i\<close>, the row of \<open>ys\<close> is REVOKED if the row of
  \<open>xs\<close> is, and EXPIRED or REVOKED if the row of \<open>xs\<close> is EXPIRED.
\<close>

fun suspends :: "string \<Rightarrow> call \<Rightarrow> bool" where
  "suspends i (SuspendIdentity iid reason lid lts) = (iid = i)"
| "suspends i c = False"

definition terminal_kept :: "string \<Rightarrow> identity_row list \<Rightarrow> identity_row list \<Rightarrow> bool" where
  "terminal_kept i xs ys =
     (length xs \<le> length ys \<and>
      (\<forall>n < length xs.
         identity_id (ys ! n) = identity_id (xs ! n)
         \<and> (identity_id (xs ! n) = i \<longrightarrow>
              (status (xs ! n) = REVOKED \<longrightarrow> status (ys ! n) = REVOKED)
              \<and> (status (xs ! n) = EXPIRED \<longrightarrow>
                    status (ys ! n) = EXPIRED \<or> status (ys ! n) = REVOKED))))"

text \<open>
  \<open>snapshot\<close> is the part of a request's row that \<open>initiate_kyc\<close> writes and no UPDATE
  names.  \<open>snapshots_verified\<close>: document ids are distinct, and every id in a request's
  \<open>documents_submitted\<close> is the id of a stored document that is verified.
\<close>

definition snapshot :: "kyc_row \<Rightarrow> string \<times> string \<times> string \<times> string list \<times> string" where
  "snapshot r =
     (request_id r, kyc_identity_id r, requested_level r, documents_submitted r, created_at r)"

definition snapshots_verified :: "db \<Rightarrow> bool" where
  "snapshots_verified d =
     (distinct (map doc_id (documents d)) \<and>
      (\<forall>r \<in> set (kyc_requests d).
         set (documents_submitted r) \<subseteq> set (map doc_id (documents d))
         \<and> (\<forall>x \<in> set (documents d). doc_id x \<in> set (documents_submitted r) \<longrightarrow> verified x)))"

text \<open>
  The order of the specification's glossary, UNVERIFIED < BASIC < STANDARD < ENHANCED, as
  a rank of the level strings.  The program has no such order: it is used only to state
  that a level went down.
\<close>

definition level_rank :: "string \<Rightarrow> nat option" where
  "level_rank l =
     (if l = ''unverified'' then Some 0
      else if l = ''basic'' then Some 1
      else if l = ''standard'' then Some 2
      else if l = ''enhanced'' then Some 3
      else None)"

subsection \<open>Sample data\<close>

text \<open>
  \<open>sample_env\<close>: the limit of SQLite 3.32 and later; no call of the samples hashes
  anything, so the hash function is left as the identity.  \<open>tiny_env\<close> has the limit 0,
  under which every SELECT with a host parameter is refused.
\<close>

definition sample_env :: env where
  "sample_env = \<lparr>sha256 = (\<lambda>s. s), max_variable_number = 32766\<rparr>"

definition tiny_env :: env where
  "tiny_env = \<lparr>sha256 = (\<lambda>s. s), max_variable_number = 0\<rparr>"

text \<open>
  The example of the specification: create the identity of Dave Brown, submit one
  passport, verify it, initiate KYC at level basic (the log texts as Python 3.10 prints
  them).  \<open>dave_db\<close> is the database these calls leave (\<open>dave_db_reached\<close>),
  \<open>dave_request\<close> the pending request in it.
\<close>

definition dave_calls :: "call list" where
  "dave_calls =
     [CreateIdentity ''Dave Brown'' ''dave@example.com'' None ''i1'' ''2026-01-01'' ''2031-01-01''
        ''l1'' ''2026-01-01'',
      SubmitDocument ''i1'' ''passport'' ''passport'' ''P999'' ''UK'' ''2029-01-01'' ''d1'' ''l2'' ''2026-01-02'',
      VerifyDocument ''i1'' ''d1'' ''2026-01-03'' ''l3'' ''2026-01-03'',
      InitiateKyc ''i1'' ''basic'' ''basic'' ''r1'' ''2026-01-04'' ''l4'' ''2026-01-04'']"

definition dave_later_calls :: "call list" where
  "dave_later_calls =
     [SubmitDocument ''i1'' ''license'' ''license'' ''DL789'' ''CA'' ''2028-06-01'' ''d2'' ''l6'' ''2026-01-06'',
      VerifyDocument ''i1'' ''d2'' ''2026-01-07'' ''l7'' ''2026-01-07'']"

definition dave_identity :: identity_row where
  "dave_identity =
     \<lparr>identity_id = ''i1'', holder_name = ''Dave Brown'', holder_email = ''dave@example.com'',
       biometric_hash = None, verification_level = ''unverified'', status = ACTIVE,
       issued_at = ''2026-01-01'', expires_at = ''2031-01-01''\<rparr>"

definition dave_request :: kyc_row where
  "dave_request =
     \<lparr>request_id = ''r1'', kyc_identity_id = ''i1'', requested_level = ''basic'',
       documents_submitted = [''d1''], kyc_status = PENDING, kyc_notes = [],
       processed_at = None, created_at = ''2026-01-04''\<rparr>"

definition dave_db :: db where
  "dave_db =
     \<lparr>identities =
        [dave_identity],
      documents =
        [\<lparr>doc_id = ''d1'', doc_identity_id = ''i1'', doc_type = ''passport'',
          number = ''P999'', issuing_country = ''UK'', expiry = ''2029-01-01'',
          verified = True, verified_at = Some ''2026-01-03''\<rparr>],
      kyc_requests =
        [dave_request],
      audit_log =
        [\<lparr>log_id = ''l1'', log_identity_id = ''i1'', action = ''CREATE_IDENTITY'',
          details = ''Created identity for dave@example.com'', timestamp = ''2026-01-01''\<rparr>,
         \<lparr>log_id = ''l2'', log_identity_id = ''i1'', action = ''SUBMIT_DOCUMENT'',
          details = ''Submitted passport document'', timestamp = ''2026-01-02''\<rparr>,
         \<lparr>log_id = ''l3'', log_identity_id = ''i1'', action = ''VERIFY_DOCUMENT'',
          details = ''Document d1 verified'', timestamp = ''2026-01-03''\<rparr>,
         \<lparr>log_id = ''l4'', log_identity_id = ''i1'', action = ''INITIATE_KYC'',
          details = ''KYC requested for level basic'', timestamp = ''2026-01-04''\<rparr>]\<rparr>"


text \<open>
  A second trace: Erin Gray's identity gets a passport, a license and a utility bill,
  all verified, and an ENHANCED request that is processed; then a BASIC request is
  initiated.
\<close>

definition erin_calls :: "call list" where
  "erin_calls =
     [CreateIdentity ''Erin Gray'' ''erin@example.com'' None ''i1'' ''2026-01-01'' ''2031-01-01''
        ''l1'' ''2026-01-01'',
      SubmitDocument ''i1'' ''passport'' ''passport'' ''P1'' ''UK'' ''2029-01-01'' ''d1'' ''l2'' ''2026-01-02'',
      SubmitDocument ''i1'' ''license'' ''license'' ''L1'' ''UK'' ''2029-01-01'' ''d2'' ''l3'' ''2026-01-02'',
      SubmitDocument ''i1'' ''utility_bill'' ''utility_bill'' ''U1'' ''UK'' ''2029-01-01'' ''d3'' ''l4'' ''2026-01-02'',
      VerifyDocument ''i1'' ''d1'' ''2026-01-03'' ''l5'' ''2026-01-03'',
      VerifyDocument ''i1'' ''d2'' ''2026-01-03'' ''l6'' ''2026-01-03'',
      VerifyDocument ''i1'' ''d3'' ''2026-01-03'' ''l7'' ''2026-01-03'',
      InitiateKyc ''i1'' ''enhanced'' ''enhanced'' ''r1'' ''2026-01-04'' ''l8'' ''2026-01-04'',
      ProcessKyc ''r1'' ''2026-01-05'' ''l9'' ''2026-01-05'',
      InitiateKyc ''i1'' ''basic'' ''basic'' ''r2'' ''2026-01-06'' ''l10'' ''2026-01-06'']"

section \<open>Auxiliary lemmas\<close>

lemmas op_defs = create_identity_def submit_document_def verify_document_def initiate_kyc_def
  process_kyc_def revoke_identity_def suspend_identity_def reactivate_identity_def
  expire_old_identities_def then_log_def log_action_def find_identity_def find_request_def
  set_status_def set_level_def fetch_docs_def update_request_def is_level_def
  check_doc_requirements_def UNVERIFIED_def BASIC_def STANDARD_def ENHANCED_def PASSPORT_def
  NATIONAL_ID_def empty_db_def Let_def

lemma find_update_request:
  assumes "\<And>r. request_id (f r) = request_id r"
  shows "find_request (update_request rid f d) rid' =
           (if rid' = rid then map_option f (find_request d rid) else find_request d rid')"
proof -
  have "find (\<lambda>r. request_id r = rid') (map (\<lambda>r. if request_id r = rid then f r else r) xs) =
          (if rid' = rid then map_option f (find (\<lambda>r. request_id r = rid) xs)
           else find (\<lambda>r. request_id r = rid') xs)" for xs
    using assms by (induction xs) auto
  then show ?thesis by (simp add: find_request_def update_request_def)
qed

lemma process_kyc_not_pending:
  assumes "find_request d rid = Some row" "kyc_status row \<noteq> PENDING"
  shows "process_kyc mv rid now lid lts d = (Inl InvalidState, d)"
  using assms by (simp add: process_kyc_def)

lemma snd_log_action_fields [simp]:
  "identities (snd (log_action iid act det lid lts d)) = identities d"
  "documents (snd (log_action iid act det lid lts d)) = documents d"
  "kyc_requests (snd (log_action iid act det lid lts d)) = kyc_requests d"
  by (simp_all add: log_action_def)

lemma find_request_cong:
  "kyc_requests d = kyc_requests d' \<Longrightarrow> find_request d rid = find_request d' rid"
  by (simp add: find_request_def)


lemma fetch_docs_eq:
  "fetch_docs mv ids d =
     (if length ids > mv then Inl OperationalError else Inr (snapshot_docs ids d))"
  by (cases ids) (simp_all add: fetch_docs_def snapshot_docs_def)

lemma snapshot_docs_update_request [simp]:
  "snapshot_docs ids (update_request rid f d) = snapshot_docs ids d"
  by (simp add: snapshot_docs_def update_request_def)

lemma process_kyc_too_many:
  assumes "find_request d rid = Some row" "kyc_status row = PENDING"
    and "length (documents_submitted row) > mv"
  shows "process_kyc mv rid now lid lts d =
           (Inl OperationalError,
            update_request rid (\<lambda>r. r\<lparr>kyc_status := PROCESSING, processed_at := Some now\<rparr>) d)"
  using assms by (simp add: process_kyc_def Let_def fetch_docs_eq)

lemma process_kyc_pending_db:
  assumes "find_request d rid = Some row" "kyc_status row = PENDING"
    and "length (documents_submitted row) \<le> mv"
  shows "snd (process_kyc mv rid now lid lts d) =
    snd (log_action (kyc_identity_id row) ''PROCESS_KYC''
          (''KYC '' @ rid @ '': '' @ KYCStatus_value (if approves row d then APPROVED else REJECTED)) lid lts
      (update_request rid (\<lambda>r. r\<lparr>kyc_status := (if approves row d then APPROVED else REJECTED),
            kyc_notes := (if approves row d
              then ''All documents verified and requirements met.''
                        else ''Insufficient verified documents or requirements not met.''),
            processed_at := Some now\<rparr>)
        (if approves row d
         then set_level (kyc_identity_id row) (requested_level row) 
                (update_request rid (\<lambda>r. r\<lparr>kyc_status := PROCESSING, processed_at := Some now\<rparr>) d)
         else update_request rid (\<lambda>r. r\<lparr>kyc_status := PROCESSING, processed_at := Some now\<rparr>) d)))"
proof -
  obtain r d4 where L: "log_action (kyc_identity_id row) ''PROCESS_KYC''
          (''KYC '' @ rid @ '': '' @ KYCStatus_value (if approves row d then APPROVED else REJECTED)) lid lts
      (update_request rid (\<lambda>r. r\<lparr>kyc_status := (if approves row d then APPROVED else REJECTED),
            kyc_notes := (if approves row d
              then ''All documents verified and requirements met.''
                        else ''Insufficient verified documents or requirements not met.''),
            processed_at := Some now\<rparr>)
        (if approves row d
         then set_level (kyc_identity_id row) (requested_level row) 
                (update_request rid (\<lambda>r. r\<lparr>kyc_status := PROCESSING, processed_at := Some now\<rparr>) d)
         else update_request rid (\<lambda>r. r\<lparr>kyc_status := PROCESSING, processed_at := Some now\<rparr>) d)) = (r, d4)"
    by (meson surj_pair)
  show ?thesis
    unfolding L
    using assms L
    by (cases r; cases "approves row d")
      (simp_all add: process_kyc_def Let_def approves_def fetch_docs_eq del: KYCStatus_value.simps)
qed

lemma process_kyc_pending_fields:
  fixes mv now lid lts
  assumes "find_request d rid = Some row" "kyc_status row = PENDING"
  defines "d' \<equiv> snd (process_kyc mv rid now lid lts d)"
  shows "identities d' = (if outcome mv row d = APPROVED
            then identities (set_level (kyc_identity_id row) (requested_level row) d)
            else identities d)"
    and "documents d' = documents d"
    and "kyc_requests d' = kyc_requests (update_request rid (decided (outcome mv row d) now) d)"
    and "find_request d' rid = Some (decided (outcome mv row d) now row)"
proof -
  have KID: "kyc_requests d' = kyc_requests (update_request rid (decided (outcome mv row d) now) d)
      \<and> identities d' = (if outcome mv row d = APPROVED
            then identities (set_level (kyc_identity_id row) (requested_level row) d)
            else identities d)
      \<and> documents d' = documents d"
  proof (cases "length (documents_submitted row) > mv")
    case True
    note T = process_kyc_too_many [OF assms(1,2) True]
    from True have o: "outcome mv row d = PROCESSING"
      by (simp add: outcome_def)
    show ?thesis
      unfolding d'_def T o by (simp add: update_request_def decided_def)
  next
    case False
    then have le: "length (documents_submitted row) \<le> mv" by simp
    note P = process_kyc_pending_db [OF assms(1,2) le]
    from False have o: "outcome mv row d = (if approves row d then APPROVED else REJECTED)"
      by (simp add: outcome_def)
    show ?thesis
      unfolding d'_def P o
      by (simp add: update_request_def set_level_def decided_def comp_def)
  qed
  then have K: "kyc_requests d' = kyc_requests (update_request rid (decided (outcome mv row d) now) d)"
    and I: "identities d' = (if outcome mv row d = APPROVED
            then identities (set_level (kyc_identity_id row) (requested_level row) d)
            else identities d)"
    and D: "documents d' = documents d"
    by blast+
  from I show "identities d' = (if outcome mv row d = APPROVED
            then identities (set_level (kyc_identity_id row) (requested_level row) d)
            else identities d)" .
  from D show "documents d' = documents d" .
  from K show "kyc_requests d' = kyc_requests (update_request rid (decided (outcome mv row d) now) d)" .
  have "find_request d' rid = find_request (update_request rid (decided (outcome mv row d) now) d) rid"
    using K by (rule find_request_cong)
  also have "\<dots> = Some (decided (outcome mv row d) now row)"
    using assms(1) by (simp add: find_update_request decided_def)
  finally show "find_request d' rid = Some (decided (outcome mv row d) now row)" .
qed

lemma process_kyc_pending_result:
  assumes "find_request d rid = Some row" "kyc_status row = PENDING"
  shows "fst (process_kyc mv rid now lid lts d) = Inr req \<Longrightarrow> kyc_status req = outcome mv row d"
    and "length (documents_submitted row) > mv \<longleftrightarrow>
           fst (process_kyc mv rid now lid lts d) = Inl OperationalError"
  using assms
  by (auto simp: process_kyc_def Let_def approves_def outcome_def fetch_docs_eq log_action_def
      split: prod.splits sum.splits if_splits)

lemma outcome_cases:
  "outcome mv row d = PROCESSING \<longleftrightarrow> length (documents_submitted row) > mv"
  "outcome mv row d = APPROVED \<longleftrightarrow> length (documents_submitted row) \<le> mv \<and> approves row d"
  "outcome mv row d = REJECTED \<longleftrightarrow> length (documents_submitted row) \<le> mv \<and> \<not> approves row d"
  "outcome mv row d \<noteq> PENDING"
  by (auto simp: outcome_def)

lemma approves_only_verified:
  assumes "approves row d"
  shows "documents_submitted row \<noteq> []"
    and "\<exists>x \<in> set (documents d). doc_id x \<in> set (documents_submitted row)"
    and "\<forall>x \<in> set (documents d). doc_id x \<in> set (documents_submitted row) \<longrightarrow> verified x"
proof -
  let ?docs = "snapshot_docs (documents_submitted row) d"
  from assms have ne: "?docs \<noteq> []" and av: "list_all verified ?docs"
    by (simp_all add: approves_def Let_def)
  have eq: "?docs = filter (\<lambda>x. doc_id x \<in> set (documents_submitted row)) (documents d)"
    by (simp add: snapshot_docs_def)
  from ne show "documents_submitted row \<noteq> []"
    by (auto simp: snapshot_docs_def)
  from ne eq show "\<exists>x \<in> set (documents d). doc_id x \<in> set (documents_submitted row)"
    by (metis (mono_tags, lifting) filter_False)
  from av eq show "\<forall>x \<in> set (documents d). doc_id x \<in> set (documents_submitted row) \<longrightarrow> verified x"
    by (simp add: list_all_iff)
qed

lemma find_map_status:
  "find (\<lambda>i. identity_id i = iid')
     (map (\<lambda>i. if identity_id i = iid then i\<lparr>status := st\<rparr> else i) xs) =
   (if iid' = iid then map_option (\<lambda>i. i\<lparr>status := st\<rparr>) (find (\<lambda>i. identity_id i = iid) xs)
    else find (\<lambda>i. identity_id i = iid') xs)"
  by (induction xs) auto

lemma find_set_status:
  "find_identity (set_status iid st d) iid' =
     (if iid' = iid then map_option (\<lambda>i. i\<lparr>status := st\<rparr>) (find_identity d iid)
      else find_identity d iid')"
  unfolding find_identity_def set_status_def by (simp add: find_map_status)

lemma set_status_twice [simp]:
  "set_status iid st (set_status iid st' d) = set_status iid st d"
  by (simp add: set_status_def comp_def)

lemma then_log_fresh:
  "lid \<notin> set (map log_id (audit_log d)) \<Longrightarrow>
   then_log iid act det lid lts r d =
     (Inr r, d\<lparr>audit_log := audit_log d @
        [\<lparr>log_id = lid, log_identity_id = iid, action = act, details = det, timestamp = lts\<rparr>]\<rparr>)"
  by (simp add: then_log_def log_action_def)

lemma find_identity_audit [simp]:
  "find_identity (d\<lparr>audit_log := l\<rparr>) iid = find_identity d iid"
  by (simp add: find_identity_def)

lemma set_status_audit:
  "set_status iid st (d\<lparr>audit_log := l\<rparr>) = (set_status iid st d)\<lparr>audit_log := l\<rparr>"
  "audit_log (set_status iid st d) = audit_log d"
  by (simp_all add: set_status_def)

subsection \<open>The tables after each call\<close>

lemma then_log_tables [simp]:
  "identities (snd (then_log iid act det lid lts r d)) = identities d"
  "documents (snd (then_log iid act det lid lts r d)) = documents d"
  "kyc_requests (snd (then_log iid act det lid lts r d)) = kyc_requests d"
  by (simp_all add: then_log_def log_action_def)

lemma then_log_audit:
  "audit_log (snd (then_log iid act det lid lts r d)) =
     (if lid \<in> set (map log_id (audit_log d)) then audit_log d
      else audit_log d @ [\<lparr>log_id = lid, log_identity_id = iid, action = act, details = det,
                            timestamp = lts\<rparr>])"
  by (simp add: then_log_def log_action_def)

text \<open>The identities table after each mutating call.\<close>

lemma create_identity_identities:
  "identities (snd (create_identity h name email bio new_id issued expires lid lts d)) = identities d
   \<or> (\<exists>row. verification_level row = UNVERIFIED \<and> status row = ACTIVE
         \<and> identity_id row \<notin> set (map identity_id (identities d))
         \<and> identities (snd (create_identity h name email bio new_id issued expires lid lts d))
             = identities d @ [row])"
  by (simp add: create_identity_def Let_def)

lemma submit_document_identities [simp]:
  "identities (snd (submit_document iid dtype shown num country exp new_id lid lts d)) = identities d"
  by (simp add: submit_document_def Let_def split: option.split)

lemma verify_document_identities [simp]:
  "identities (snd (verify_document iid did now lid lts d)) = identities d"
  by (simp add: verify_document_def split: option.split)

lemma initiate_kyc_identities [simp]:
  "identities (snd (initiate_kyc iid lvl shown new_id created lid lts d)) = identities d"
  by (simp add: initiate_kyc_def Let_def split: option.split)

lemma process_kyc_unchanged:
  "find_request d rid = None \<or> (\<exists>row. find_request d rid = Some row \<and> kyc_status row \<noteq> PENDING)
     \<Longrightarrow> snd (process_kyc mv rid now lid lts d) = d"
  by (auto simp: process_kyc_def)

lemma revoke_identity_identities:
  "identities (snd (revoke_identity iid reason lid lts d)) =
     (if find_identity d iid = None then identities d
      else identities (set_status iid REVOKED d))"
  by (simp add: revoke_identity_def split: option.split)

lemma suspend_identity_identities:
  "identities (snd (suspend_identity iid reason lid lts d)) =
     (if find_identity d iid = None then identities d
      else identities (set_status iid SUSPENDED d))"
  by (simp add: suspend_identity_def split: option.split)

lemma reactivate_identity_identities:
  "identities (snd (reactivate_identity iid lid lts d)) =
     (case find_identity d iid of
        None \<Rightarrow> identities d
      | Some row \<Rightarrow> if status row \<noteq> SUSPENDED then identities d
                    else identities (set_status iid ACTIVE d))"
  by (simp add: reactivate_identity_def split: option.split)

lemma expire_old_identities_identities:
  "identities (snd (expire_old_identities now d)) =
     map (\<lambda>i. if text_lt (expires_at i) now \<and> status i = ACTIVE then i\<lparr>status := EXPIRED\<rparr> else i)
       (identities d)"
  by (simp add: expire_old_identities_def Let_def)

lemma read_only_snd [simp]:
  "snd (check_verification_level iid d) = d"
  "snd (get_documents iid d) = d"
  "snd (get_kyc_history iid d) = d"
  "snd (get_audit_trail iid d) = d"
  "snd (list_identities st lvl d) = d"
  "snd (search_identity q d) = d"
  "snd (identity_stats d) = d"
  "snd (generate_identity_report iid d) = d"
proof -
  show c: "snd (check_verification_level iid d) = d"
    by (simp add: check_verification_level_def Let_def split: option.split)
  show "snd (generate_identity_report iid d) = d"
    using c
    by (auto simp: generate_identity_report_def get_documents_def get_kyc_history_def
          get_audit_trail_def split: prod.splits sum.splits)
qed (simp_all add: get_documents_def get_kyc_history_def get_audit_trail_def
          list_identities_def search_identity_def identity_stats_def Let_def)

text \<open>The documents and kyc\_requests tables after each mutating call.\<close>

lemma create_identity_other [simp]:
  "documents (snd (create_identity h name email bio new_id issued expires lid lts d)) = documents d"
  "kyc_requests (snd (create_identity h name email bio new_id issued expires lid lts d))
     = kyc_requests d"
  by (simp_all add: create_identity_def Let_def)

lemma submit_document_documents:
  "documents (snd (submit_document iid dtype shown num country exp new_id lid lts d)) = documents d
   \<or> (\<exists>doc. doc_id doc \<notin> set (map doc_id (documents d)) \<and> \<not> verified doc
         \<and> documents (snd (submit_document iid dtype shown num country exp new_id lid lts d))
             = documents d @ [doc])"
  by (simp add: submit_document_def Let_def split: option.split)

lemma submit_document_requests [simp]:
  "kyc_requests (snd (submit_document iid dtype shown num country exp new_id lid lts d)) = kyc_requests d"
  by (simp add: submit_document_def Let_def split: option.split)

lemma verify_document_documents:
  "documents (snd (verify_document iid did now lid lts d)) = documents d
   \<or> documents (snd (verify_document iid did now lid lts d))
       = map (\<lambda>x. if doc_id x = did then x\<lparr>verified := True, verified_at := Some now\<rparr> else x)
           (documents d)"
  by (simp add: verify_document_def split: option.split)

lemma verify_document_requests [simp]:
  "kyc_requests (snd (verify_document iid did now lid lts d)) = kyc_requests d"
  by (simp add: verify_document_def split: option.split)

lemma initiate_kyc_documents [simp]:
  "documents (snd (initiate_kyc iid lvl shown new_id created lid lts d)) = documents d"
  by (simp add: initiate_kyc_def Let_def split: option.split)

lemma initiate_kyc_requests:
  "kyc_requests (snd (initiate_kyc iid lvl shown new_id created lid lts d)) =
     (if find_identity d iid = None \<or> new_id \<in> set (map request_id (kyc_requests d))
      then kyc_requests d
      else kyc_requests d @
        [\<lparr>request_id = new_id, kyc_identity_id = iid, requested_level = lvl,
          documents_submitted =
            map doc_id (filter (\<lambda>x. doc_identity_id x = iid \<and> verified x) (documents d)),
          kyc_status = PENDING, kyc_notes = [], processed_at = None, created_at = created\<rparr>])"
  by (simp add: initiate_kyc_def Let_def split: option.split)

lemma process_kyc_documents [simp]:
  "documents (snd (process_kyc mv rid now lid lts d)) = documents d"
proof (cases "\<exists>row. find_request d rid = Some row \<and> kyc_status row = PENDING")
  case True
  then show ?thesis
    using process_kyc_pending_fields(2) by blast
next
  case False
  then have "snd (process_kyc mv rid now lid lts d) = d"
    by (intro process_kyc_unchanged) (cases "find_request d rid"; simp)
  then show ?thesis by simp
qed

lemma process_kyc_requests:
  "kyc_requests (snd (process_kyc mv rid now lid lts d)) = kyc_requests d
   \<or> (\<exists>st. kyc_requests (snd (process_kyc mv rid now lid lts d))
            = map (\<lambda>r. if request_id r = rid then decided st now r else r) (kyc_requests d))"
proof (cases "\<exists>row. find_request d rid = Some row \<and> kyc_status row = PENDING")
  case True
  then obtain row where r: "find_request d rid = Some row" "kyc_status row = PENDING"
    by blast
  show ?thesis
    unfolding process_kyc_pending_fields(3) [OF r] by (auto simp: update_request_def)
next
  case False
  then have "snd (process_kyc mv rid now lid lts d) = d"
    by (intro process_kyc_unchanged) (cases "find_request d rid"; simp)
  then show ?thesis by simp
qed

lemma status_calls_other [simp]:
  "documents (snd (revoke_identity iid reason lid lts d)) = documents d"
  "kyc_requests (snd (revoke_identity iid reason lid lts d)) = kyc_requests d"
  "documents (snd (suspend_identity iid reason lid lts d)) = documents d"
  "kyc_requests (snd (suspend_identity iid reason lid lts d)) = kyc_requests d"
  "documents (snd (reactivate_identity iid lid lts d)) = documents d"
  "kyc_requests (snd (reactivate_identity iid lid lts d)) = kyc_requests d"
  "documents (snd (expire_old_identities now d)) = documents d"
  "kyc_requests (snd (expire_old_identities now d)) = kyc_requests d"
  by (simp_all add: revoke_identity_def suspend_identity_def reactivate_identity_def
        expire_old_identities_def set_status_def Let_def split: option.split)

lemma snapshot_decided [simp]: "snapshot (decided st now r) = snapshot r"
  by (simp add: snapshot_def decided_def)

lemma map_snapshot_decided:
  "map snapshot (map (\<lambda>r. if request_id r = rid then decided st now r else r) xs) = map snapshot xs"
  by (induction xs) simp_all

lemma step_snapshots:
  "\<exists>ys. map snapshot (kyc_requests (step env c d)) = map snapshot (kyc_requests d) @ ys"
proof (cases c)
  case (InitiateKyc iid lvl shown new_id created lid lts)
  then show ?thesis by (simp add: initiate_kyc_requests)
next
  case (ProcessKyc rid now lid lts)
  from process_kyc_requests [of "max_variable_number env" rid now lid lts d] show ?thesis
    unfolding ProcessKyc step.simps
    by (elim disjE exE) (simp_all only: map_snapshot_decided self_append_conv, simp_all)
qed simp_all

lemma run_snapshots:
  "\<exists>ys. map snapshot (kyc_requests (run env cs d)) = map snapshot (kyc_requests d) @ ys"
proof (induction cs arbitrary: d)
  case Nil
  then show ?case by simp
next
  case (Cons c cs)
  obtain ys where 1: "map snapshot (kyc_requests (step env c d)) = map snapshot (kyc_requests d) @ ys"
    using step_snapshots by blast
  obtain zs where 2: "map snapshot (kyc_requests (run env cs (step env c d)))
                        = map snapshot (kyc_requests (step env c d)) @ zs"
    using Cons.IH by blast
  show ?case
    by (simp add: 1 2)
qed

lemma find_request_later:
  assumes "map snapshot ys = map snapshot xs @ zs"
    and "find (\<lambda>r. request_id r = rid) xs = Some row"
  shows "\<exists>row'. find (\<lambda>r. request_id r = rid) ys = Some row' \<and> snapshot row' = snapshot row"
  using assms
proof (induction xs arbitrary: ys)
  case Nil
  then show ?case by simp
next
  case (Cons x xs)
  from Cons.prems(1) obtain y ys' where ys: "ys = y # ys'" "snapshot y = snapshot x"
    "map snapshot ys' = map snapshot xs @ zs"
    by (cases ys) auto
  from ys(2) have id: "request_id y = request_id x"
    by (simp add: snapshot_def)
  show ?case
  proof (cases "request_id x = rid")
    case True
    with Cons.prems(2) ys id show ?thesis by simp
  next
    case False
    with Cons.prems(2) have "find (\<lambda>r. request_id r = rid) xs = Some row" by simp
    from Cons.IH [OF ys(3) this] False id ys(1) show ?thesis by simp
  qed
qed


subsection \<open>Terminal statuses\<close>

lemma terminal_kept_refl: "terminal_kept i xs xs"
  by (simp add: terminal_kept_def)

lemma terminal_kept_trans:
  assumes "terminal_kept i xs ys" and "terminal_kept i ys zs"
  shows "terminal_kept i xs zs"
  unfolding terminal_kept_def
proof (intro conjI allI impI)
  show "length xs \<le> length zs"
    using assms by (simp add: terminal_kept_def)
next
  fix n assume n: "n < length xs"
  with assms(1) have n': "n < length ys"
    by (simp add: terminal_kept_def)
  from assms(1) n have 1: "identity_id (ys ! n) = identity_id (xs ! n)"
    by (simp add: terminal_kept_def)
  from assms(2) n' have 2: "identity_id (zs ! n) = identity_id (ys ! n)"
    by (simp add: terminal_kept_def)
  from 1 2 show "identity_id (zs ! n) = identity_id (xs ! n)" by simp
next
  fix n assume n: "n < length xs" and i: "identity_id (xs ! n) = i"
  from assms(1) n have n': "n < length ys"
    by (simp add: terminal_kept_def)
  from assms(1) n have 1: "identity_id (ys ! n) = identity_id (xs ! n)"
    by (simp add: terminal_kept_def)
  with i have i': "identity_id (ys ! n) = i" by simp
  from assms(1) n i have a: "status (xs ! n) = REVOKED \<longrightarrow> status (ys ! n) = REVOKED"
    by (simp add: terminal_kept_def)
  from assms(2) n' i' have b: "status (ys ! n) = REVOKED \<longrightarrow> status (zs ! n) = REVOKED"
    by (simp add: terminal_kept_def)
  assume "status (xs ! n) = REVOKED"
  with a b show "status (zs ! n) = REVOKED" by blast
next
  fix n assume n: "n < length xs" and i: "identity_id (xs ! n) = i"
  from assms(1) n have n': "n < length ys"
    by (simp add: terminal_kept_def)
  from assms(1) n have 1: "identity_id (ys ! n) = identity_id (xs ! n)"
    by (simp add: terminal_kept_def)
  with i have i': "identity_id (ys ! n) = i" by simp
  from assms(1) n i
  have a: "status (xs ! n) = EXPIRED \<longrightarrow> status (ys ! n) = EXPIRED \<or> status (ys ! n) = REVOKED"
    by (simp add: terminal_kept_def)
  from assms(2) n' i' have b: "status (ys ! n) = REVOKED \<longrightarrow> status (zs ! n) = REVOKED"
    "status (ys ! n) = EXPIRED \<longrightarrow> status (zs ! n) = EXPIRED \<or> status (zs ! n) = REVOKED"
    by (simp_all add: terminal_kept_def)
  assume "status (xs ! n) = EXPIRED"
  with a b show "status (zs ! n) = EXPIRED \<or> status (zs ! n) = REVOKED" by blast
qed

lemma terminal_kept_append: "terminal_kept i xs (xs @ zs)"
  by (simp add: terminal_kept_def nth_append)

lemma terminal_kept_map:
  assumes "\<And>x. x \<in> set xs \<Longrightarrow> identity_id (f x) = identity_id x
             \<and> (identity_id x = i \<longrightarrow>
                  (status x = REVOKED \<longrightarrow> status (f x) = REVOKED)
                  \<and> (status x = EXPIRED \<longrightarrow> status (f x) = EXPIRED \<or> status (f x) = REVOKED))"
  shows "terminal_kept i xs (map f xs)"
  using assms by (simp add: terminal_kept_def)

lemma find_distinct_identity:
  assumes "distinct (map identity_id xs)" and "find (\<lambda>i. identity_id i = iid) xs = Some row"
    and "i \<in> set xs" and "identity_id i = iid"
  shows "i = row"
proof -
  from assms(2) have "row \<in> set xs" "identity_id row = iid"
    by (auto simp: find_Some_iff)
  with assms(1,3,4) show ?thesis
    by (metis distinct_map inj_onD)
qed

lemma terminal_kept_set_status:
  assumes "st = REVOKED \<or> iid \<noteq> i
           \<or> (\<forall>x \<in> set (identities d). identity_id x = iid \<longrightarrow>
                 status x \<noteq> REVOKED \<and> status x \<noteq> EXPIRED)"
  shows "terminal_kept i (identities d) (identities (set_status iid st d))"
  unfolding set_status_def using assms
  by (auto intro!: terminal_kept_map)

lemma process_kyc_identities:
  "identities (snd (process_kyc mv rid now lid lts d)) = identities d
   \<or> (\<exists>row. find_request d rid = Some row \<and> kyc_status row = PENDING
         \<and> outcome mv row d = APPROVED
         \<and> identities (snd (process_kyc mv rid now lid lts d))
             = identities (set_level (kyc_identity_id row) (requested_level row) d))"
proof (cases "\<exists>row. find_request d rid = Some row \<and> kyc_status row = PENDING")
  case True
  then obtain row where r: "find_request d rid = Some row" "kyc_status row = PENDING"
    by blast
  from process_kyc_pending_fields(1) [OF r, of mv now lid lts] r show ?thesis
    by (cases "outcome mv row d = APPROVED") auto
next
  case False
  then have "snd (process_kyc mv rid now lid lts d) = d"
    by (intro process_kyc_unchanged) (cases "find_request d rid"; simp)
  then show ?thesis by simp
qed

lemma terminal_kept_set_level:
  "terminal_kept i (identities d) (identities (set_level iid lvl d))"
  unfolding set_level_def by (auto intro!: terminal_kept_map)

lemma step_terminal_kept:
  assumes "distinct (map identity_id (identities d))" and "\<not> suspends i c"
  shows "terminal_kept i (identities d) (identities (step env c d))"
proof (cases c)
  case (CreateIdentity name email bio new_id issued expires lid lts)
  then show ?thesis
    using create_identity_identities [of "sha256 env" name email bio new_id issued expires lid lts d]
    by (auto simp: terminal_kept_refl terminal_kept_append)
next
  case (ProcessKyc rid now lid lts)
  from process_kyc_identities [of "max_variable_number env" rid now lid lts d]
  show ?thesis
    unfolding ProcessKyc step.simps
    by (elim disjE exE conjE) (simp_all add: terminal_kept_refl terminal_kept_set_level)
next
  case (RevokeIdentity iid reason lid lts)
  then show ?thesis
    by (simp add: revoke_identity_identities terminal_kept_refl terminal_kept_set_status)
next
  case (SuspendIdentity iid reason lid lts)
  with assms(2) have "iid \<noteq> i" by simp
  then show ?thesis
    by (simp add: SuspendIdentity suspend_identity_identities terminal_kept_refl
          terminal_kept_set_status)
next
  case (ReactivateIdentity iid lid lts)
  show ?thesis
  proof (cases "find_identity d iid")
    case None
    then show ?thesis
      by (simp add: ReactivateIdentity reactivate_identity_identities terminal_kept_refl)
  next
    case (Some row)
    show ?thesis
    proof (cases "status row = SUSPENDED")
      case True
      have "\<forall>x \<in> set (identities d). identity_id x = iid \<longrightarrow>
              status x \<noteq> REVOKED \<and> status x \<noteq> EXPIRED"
        using find_distinct_identity [OF assms(1)] Some True
        unfolding find_identity_def by fastforce
      then show ?thesis
        by (simp add: ReactivateIdentity reactivate_identity_identities Some True
              terminal_kept_set_status)
    next
      case False
      then show ?thesis
        by (simp add: ReactivateIdentity reactivate_identity_identities Some terminal_kept_refl)
    qed
  qed
next
  case (ExpireOldIdentities now)
  then show ?thesis
    by (auto simp: expire_old_identities_identities intro!: terminal_kept_map)
qed (simp_all add: terminal_kept_refl)

lemma set_status_ids [simp]:
  "map identity_id (identities (set_status iid st d)) = map identity_id (identities d)"
  by (simp add: set_status_def comp_def if_distrib [of identity_id] cong: if_cong)

lemma set_level_ids [simp]:
  "map identity_id (identities (set_level iid lvl d)) = map identity_id (identities d)"
  by (simp add: set_level_def comp_def if_distrib [of identity_id] cong: if_cong)

lemma step_distinct_ids:
  assumes "distinct (map identity_id (identities d))"
  shows "distinct (map identity_id (identities (step env c d)))"
proof (cases c)
  case (CreateIdentity name email bio new_id issued expires lid lts)
  then show ?thesis
    using create_identity_identities [of "sha256 env" name email bio new_id issued expires lid lts d] assms
    by auto
next
  case (ProcessKyc rid now lid lts)
  from process_kyc_identities [of "max_variable_number env" rid now lid lts d] assms
  show ?thesis
    unfolding ProcessKyc step.simps
    by (elim disjE exE conjE) simp_all
next
  case (ExpireOldIdentities now)
  then show ?thesis
    using assms
    by (simp add: expire_old_identities_identities comp_def if_distrib [of identity_id] cong: if_cong)
qed (use assms in \<open>simp_all add: revoke_identity_identities suspend_identity_identities
       reactivate_identity_identities split: option.split\<close>)

lemma run_terminal_kept:
  assumes "distinct (map identity_id (identities d))" and "\<forall>c \<in> set cs. \<not> suspends i c"
  shows "terminal_kept i (identities d) (identities (run env cs d))"
  using assms
proof (induction cs arbitrary: d)
  case Nil
  then show ?case by (simp add: terminal_kept_refl)
next
  case (Cons c cs)
  have 1: "terminal_kept i (identities d) (identities (step env c d))"
    using Cons.prems by (simp add: step_terminal_kept)
  have 2: "terminal_kept i (identities (step env c d)) (identities (run env cs (step env c d)))"
    using Cons.prems by (intro Cons.IH step_distinct_ids) simp_all
  from terminal_kept_trans [OF 1 2] show ?case
    by simp
qed

subsection \<open>Snapshots of KYC requests\<close>

lemma snapshots_verified_empty: "snapshots_verified empty_db"
  by (simp add: snapshots_verified_def empty_db_def)

lemma snapshots_verified_same:
  "snapshots_verified d \<Longrightarrow> documents d' = documents d \<Longrightarrow> kyc_requests d' = kyc_requests d \<Longrightarrow>
     snapshots_verified d'"
  by (simp add: snapshots_verified_def)

lemma snapshots_verifiedI:
  assumes "distinct (map doc_id (documents d))"
    and "\<And>r. r \<in> set (kyc_requests d) \<Longrightarrow>
           set (documents_submitted r) \<subseteq> set (map doc_id (documents d))"
    and "\<And>r x. r \<in> set (kyc_requests d) \<Longrightarrow> x \<in> set (documents d) \<Longrightarrow>
           doc_id x \<in> set (documents_submitted r) \<Longrightarrow> verified x"
  shows "snapshots_verified d"
  unfolding snapshots_verified_def using assms by blast

lemma snapshots_verifiedD:
  assumes "snapshots_verified d"
  shows "distinct (map doc_id (documents d))"
    and "r \<in> set (kyc_requests d) \<Longrightarrow> set (documents_submitted r) \<subseteq> set (map doc_id (documents d))"
    and "r \<in> set (kyc_requests d) \<Longrightarrow> x \<in> set (documents d) \<Longrightarrow>
           doc_id x \<in> set (documents_submitted r) \<Longrightarrow> verified x"
  using assms unfolding snapshots_verified_def by blast+

lemma snapshots_verified_submit:
  assumes "snapshots_verified d" and "doc_id doc \<notin> set (map doc_id (documents d))"
    and "documents d' = documents d @ [doc]" and "kyc_requests d' = kyc_requests d"
  shows "snapshots_verified d'"
proof (rule snapshots_verifiedI)
  show "distinct (map doc_id (documents d'))"
    using snapshots_verifiedD(1) [OF assms(1)] assms(2,3) by simp
next
  fix r assume "r \<in> set (kyc_requests d')"
  then have "r \<in> set (kyc_requests d)" by (simp add: assms(4))
  from snapshots_verifiedD(2) [OF assms(1) this]
  show "set (documents_submitted r) \<subseteq> set (map doc_id (documents d'))"
    by (auto simp: assms(3))
next
  fix r x assume "r \<in> set (kyc_requests d')" "x \<in> set (documents d')"
    "doc_id x \<in> set (documents_submitted r)"
  then have r: "r \<in> set (kyc_requests d)" and x: "x \<in> set (documents d) \<or> x = doc"
    by (auto simp: assms(3,4))
  from snapshots_verifiedD(2) [OF assms(1) r] assms(2) \<open>doc_id x \<in> set (documents_submitted r)\<close>
  have "x \<noteq> doc" by auto
  with x have "x \<in> set (documents d)" by simp
  from snapshots_verifiedD(3) [OF assms(1) r this] \<open>doc_id x \<in> set (documents_submitted r)\<close>
  show "verified x" by simp
qed

lemma map_doc_id_verify:
  "map doc_id (map (\<lambda>x. if doc_id x = did then x\<lparr>verified := True, verified_at := t\<rparr> else x) xs)
     = map doc_id xs"
  by (induction xs) simp_all

lemma snapshots_verified_verify:
  assumes "snapshots_verified d"
    and "documents d' = map (\<lambda>x. if doc_id x = did then x\<lparr>verified := True, verified_at := t\<rparr> else x)
                          (documents d)"
    and "kyc_requests d' = kyc_requests d"
  shows "snapshots_verified d'"
proof (rule snapshots_verifiedI)
  have ids: "map doc_id (documents d') = map doc_id (documents d)"
    unfolding assms(2) by (rule map_doc_id_verify)
  show "distinct (map doc_id (documents d'))"
    using snapshots_verifiedD(1) [OF assms(1)] ids by simp
  fix r assume r': "r \<in> set (kyc_requests d')"
  then have r: "r \<in> set (kyc_requests d)" by (simp add: assms(3))
  from snapshots_verifiedD(2) [OF assms(1) r]
  show "set (documents_submitted r) \<subseteq> set (map doc_id (documents d'))"
    unfolding ids .
  fix x assume "x \<in> set (documents d')" and in_r: "doc_id x \<in> set (documents_submitted r)"
  then obtain y where y: "y \<in> set (documents d)"
    "x = (if doc_id y = did then y\<lparr>verified := True, verified_at := t\<rparr> else y)"
    unfolding assms(2) by auto
  show "verified x"
  proof (cases "doc_id y = did")
    case True
    with y show ?thesis by simp
  next
    case False
    with y have "x = y" by simp
    with snapshots_verifiedD(3) [OF assms(1) r y(1)] in_r show ?thesis by simp
  qed
qed

lemma snapshots_verified_initiate:
  assumes "snapshots_verified d" and "documents d' = documents d"
    and "kyc_requests d' = kyc_requests d @ [req]"
    and "documents_submitted req = map doc_id (filter (\<lambda>x. doc_identity_id x = iid \<and> verified x) (documents d))"
  shows "snapshots_verified d'"
proof (rule snapshots_verifiedI)
  have dist: "distinct (map doc_id (documents d))"
    by (rule snapshots_verifiedD(1) [OF assms(1)])
  then show "distinct (map doc_id (documents d'))"
    by (simp add: assms(2))
  fix r assume "r \<in> set (kyc_requests d')"
  then have r: "r \<in> set (kyc_requests d) \<or> r = req"
    by (auto simp: assms(3))
  have sub: "set (documents_submitted req) \<subseteq> set (map doc_id (documents d))"
    unfolding assms(4) by auto
  from r sub snapshots_verifiedD(2) [OF assms(1), of r]
  show "set (documents_submitted r) \<subseteq> set (map doc_id (documents d'))"
    unfolding assms(2) by blast
  fix x assume x': "x \<in> set (documents d')" and in_r: "doc_id x \<in> set (documents_submitted r)"
  then have x: "x \<in> set (documents d)" by (simp add: assms(2))
  from r show "verified x"
  proof
    assume "r \<in> set (kyc_requests d)"
    from snapshots_verifiedD(3) [OF assms(1) this x in_r] show ?thesis .
  next
    assume "r = req"
    with in_r have "doc_id x \<in> set (documents_submitted req)" by simp
    then obtain y where y: "y \<in> set (documents d)" "verified y" "doc_id y = doc_id x"
      unfolding assms(4) by auto
    with dist x have "y = x"
      by (metis distinct_map inj_onD)
    with y show ?thesis by simp
  qed
qed

lemma snapshots_verified_process:
  assumes "snapshots_verified d" and "documents d' = documents d"
    and "kyc_requests d' = map (\<lambda>r. if request_id r = rid then decided st now r else r) (kyc_requests d)"
  shows "snapshots_verified d'"
proof (rule snapshots_verifiedI)
  show "distinct (map doc_id (documents d'))"
    using snapshots_verifiedD(1) [OF assms(1)] by (simp add: assms(2))
  fix r assume "r \<in> set (kyc_requests d')"
  then obtain r0 where r0: "r0 \<in> set (kyc_requests d)"
    "documents_submitted r = documents_submitted r0"
    unfolding assms(3) by (auto simp: decided_def split: if_splits)
  from snapshots_verifiedD(2) [OF assms(1) r0(1)]
  show "set (documents_submitted r) \<subseteq> set (map doc_id (documents d'))"
    by (simp add: assms(2) r0(2))
  fix x assume "x \<in> set (documents d')" "doc_id x \<in> set (documents_submitted r)"
  with snapshots_verifiedD(3) [OF assms(1) r0(1), of x]
  show "verified x"
    by (simp add: assms(2) r0(2))
qed

lemma step_snapshots_verified:
  assumes "snapshots_verified d"
  shows "snapshots_verified (step env c d)"
proof (cases c)
  case (SubmitDocument iid dtype shown num country exp new_id lid lts)
  from submit_document_documents [of iid dtype shown num country exp new_id lid lts d]
  show ?thesis
  proof (elim disjE exE conjE)
    assume "documents (snd (submit_document iid dtype shown num country exp new_id lid lts d)) = documents d"
    then show ?thesis
      unfolding SubmitDocument step.simps
      by (rule snapshots_verified_same [OF assms _ submit_document_requests])
  next
    fix doc
    assume "doc_id doc \<notin> set (map doc_id (documents d))"
      "documents (snd (submit_document iid dtype shown num country exp new_id lid lts d)) = documents d @ [doc]"
    then show ?thesis
      unfolding SubmitDocument step.simps
      by (rule snapshots_verified_submit [OF assms _ _ submit_document_requests])
  qed
next
  case (VerifyDocument iid did now lid lts)
  from verify_document_documents [of iid did now lid lts d]
  show ?thesis
  proof (elim disjE)
    assume "documents (snd (verify_document iid did now lid lts d)) = documents d"
    then show ?thesis
      unfolding VerifyDocument step.simps
      by (rule snapshots_verified_same [OF assms _ verify_document_requests])
  next
    assume "documents (snd (verify_document iid did now lid lts d))
       = map (\<lambda>x. if doc_id x = did then x\<lparr>verified := True, verified_at := Some now\<rparr> else x)
           (documents d)"
    then show ?thesis
      unfolding VerifyDocument step.simps
      by (rule snapshots_verified_verify [OF assms _ verify_document_requests])
  qed
next
  case (InitiateKyc iid lvl shown new_id created lid lts)
  show ?thesis
  proof (cases "find_identity d iid = None \<or> new_id \<in> set (map request_id (kyc_requests d))")
    case True
    then have "kyc_requests (snd (initiate_kyc iid lvl shown new_id created lid lts d)) = kyc_requests d"
      by (simp add: initiate_kyc_requests)
    then show ?thesis
      unfolding InitiateKyc step.simps
      by (rule snapshots_verified_same [OF assms initiate_kyc_documents])
  next
    case False
    let ?req = "\<lparr>request_id = new_id, kyc_identity_id = iid, requested_level = lvl,
          documents_submitted =
            map doc_id (filter (\<lambda>x. doc_identity_id x = iid \<and> verified x) (documents d)),
          kyc_status = PENDING, kyc_notes = [], processed_at = None, created_at = created\<rparr>"
    have "kyc_requests (snd (initiate_kyc iid lvl shown new_id created lid lts d)) = kyc_requests d @ [?req]"
      using False by (simp add: initiate_kyc_requests)
    then show ?thesis
      unfolding InitiateKyc step.simps
      by (rule snapshots_verified_initiate [OF assms initiate_kyc_documents, where iid = iid]) simp
  qed
next
  case (ProcessKyc rid now lid lts)
  from process_kyc_requests [of "max_variable_number env" rid now lid lts d]
  show ?thesis
  proof (elim disjE exE)
    assume "kyc_requests (snd (process_kyc (max_variable_number env) rid now lid lts d)) = kyc_requests d"
    then show ?thesis
      unfolding ProcessKyc step.simps
      by (rule snapshots_verified_same [OF assms process_kyc_documents])
  next
    fix st
    assume "kyc_requests (snd (process_kyc (max_variable_number env) rid now lid lts d))
            = map (\<lambda>r. if request_id r = rid then decided st now r else r) (kyc_requests d)"
    then show ?thesis
      unfolding ProcessKyc step.simps
      by (rule snapshots_verified_process [OF assms process_kyc_documents])
  qed
qed (simp_all add: snapshots_verified_same [OF assms])

lemma run_snapshots_verified:
  "snapshots_verified d \<Longrightarrow> snapshots_verified (run env cs d)"
  by (induction cs arbitrary: d) (simp_all add: step_snapshots_verified)


lemma approves_row_cong:
  "snapshot r' = snapshot r \<Longrightarrow> approves r' d = approves r d"
  by (simp add: approves_def snapshot_def)

lemma approves_documents_cong:
  "documents d' = documents d \<Longrightarrow> approves r d' = approves r d"
  by (simp add: approves_def snapshot_docs_def)

lemma check_doc_requirements_types:
  assumes "map doc_type xs = map doc_type ys"
  shows "check_doc_requirements lvl xs = check_doc_requirements lvl ys"
proof -
  from assms have "length xs = length ys"
    by (rule map_eq_imp_length_eq)
  with assms show ?thesis
    by (simp add: check_doc_requirements_def)
qed

lemma approves_submit:
  assumes "snapshots_verified d" and "r \<in> set (kyc_requests d)"
    and "doc_id doc \<notin> set (map doc_id (documents d))"
    and "documents d' = documents d @ [doc]"
  shows "approves r d' = approves r d"
proof -
  from snapshots_verifiedD(2) [OF assms(1,2)] assms(3)
  have "doc_id doc \<notin> set (documents_submitted r)" by auto
  then have "snapshot_docs (documents_submitted r) d' = snapshot_docs (documents_submitted r) d"
    by (simp add: snapshot_docs_def assms(4))
  then show ?thesis
    by (simp add: approves_def)
qed

lemma approves_verify:
  assumes "snapshots_verified d" and "r \<in> set (kyc_requests d)"
    and "documents d' = map (\<lambda>x. if doc_id x = did then x\<lparr>verified := True, verified_at := t\<rparr> else x)
                          (documents d)"
  shows "approves r d' = approves r d"
proof -
  let ?g = "\<lambda>x. if doc_id x = did then x\<lparr>verified := True, verified_at := t\<rparr> else x"
  let ?ids = "documents_submitted r"
  have f: "filter (\<lambda>x. doc_id x \<in> set ?ids) (map ?g xs) = map ?g (filter (\<lambda>x. doc_id x \<in> set ?ids) xs)"
    for xs
    by (induction xs) simp_all
  have fd: "snapshot_docs ?ids d' = map ?g (snapshot_docs ?ids d)"
    by (simp add: snapshot_docs_def assms(3) f)
  have ty: "map doc_type (snapshot_docs ?ids d') = map doc_type (snapshot_docs ?ids d)"
    unfolding fd by (induction "snapshot_docs ?ids d") simp_all
  have v: "list_all verified (snapshot_docs ?ids d)"
    using snapshots_verifiedD(3) [OF assms(1,2)]
    by (auto simp: snapshot_docs_def list_all_iff)
  then have v': "list_all verified (snapshot_docs ?ids d')"
    unfolding fd by (auto simp: list_all_iff)
  have ne: "(snapshot_docs ?ids d' = []) = (snapshot_docs ?ids d = [])"
    unfolding fd by simp
  show ?thesis
    unfolding approves_def Let_def
    using v v' ne check_doc_requirements_types [OF ty] by simp
qed

lemma step_approves:
  assumes "snapshots_verified d" and "r \<in> set (kyc_requests d)"
  shows "approves r (step env c d) = approves r d"
proof (cases c)
  case (CreateIdentity name email bio new_id issued expires lid lts)
  show ?thesis
    unfolding CreateIdentity step.simps
    by (rule approves_documents_cong) (rule create_identity_other)
next
  case (SubmitDocument iid dtype shown num country exp new_id lid lts)
  from submit_document_documents [of iid dtype shown num country exp new_id lid lts d]
  show ?thesis
    unfolding SubmitDocument step.simps
  proof (elim disjE exE conjE)
    assume "documents (snd (submit_document iid dtype shown num country exp new_id lid lts d)) = documents d"
    then show "approves r (snd (submit_document iid dtype shown num country exp new_id lid lts d)) = approves r d"
      by (rule approves_documents_cong)
  next
    fix doc
    assume "doc_id doc \<notin> set (map doc_id (documents d))"
      "documents (snd (submit_document iid dtype shown num country exp new_id lid lts d)) = documents d @ [doc]"
    then show "approves r (snd (submit_document iid dtype shown num country exp new_id lid lts d)) = approves r d"
      by (rule approves_submit [OF assms])
  qed
next
  case (VerifyDocument iid did now lid lts)
  from verify_document_documents [of iid did now lid lts d]
  show ?thesis
    unfolding VerifyDocument step.simps
  proof (elim disjE)
    assume "documents (snd (verify_document iid did now lid lts d)) = documents d"
    then show "approves r (snd (verify_document iid did now lid lts d)) = approves r d"
      by (rule approves_documents_cong)
  next
    assume "documents (snd (verify_document iid did now lid lts d))
       = map (\<lambda>x. if doc_id x = did then x\<lparr>verified := True, verified_at := Some now\<rparr> else x)
           (documents d)"
    then show "approves r (snd (verify_document iid did now lid lts d)) = approves r d"
      by (rule approves_verify [OF assms])
  qed
next
  case (InitiateKyc iid lvl shown new_id created lid lts)
  show ?thesis
    unfolding InitiateKyc step.simps
    by (rule approves_documents_cong) (rule initiate_kyc_documents)
next
  case (ProcessKyc rid now lid lts)
  show ?thesis
    unfolding ProcessKyc step.simps
    by (rule approves_documents_cong) (rule process_kyc_documents)
next
  case (RevokeIdentity iid reason lid lts)
  show ?thesis
    unfolding RevokeIdentity step.simps
    by (rule approves_documents_cong) (rule status_calls_other)
next
  case (SuspendIdentity iid reason lid lts)
  show ?thesis
    unfolding SuspendIdentity step.simps
    by (rule approves_documents_cong) (rule status_calls_other)
next
  case (ReactivateIdentity iid lid lts)
  show ?thesis
    unfolding ReactivateIdentity step.simps
    by (rule approves_documents_cong) (rule status_calls_other)
next
  case (ExpireOldIdentities now)
  show ?thesis
    unfolding ExpireOldIdentities step.simps
    by (rule approves_documents_cong) (rule status_calls_other)
qed simp_all

lemma step_request_kept:
  assumes "r0 \<in> set (kyc_requests d)"
  shows "\<exists>r1 \<in> set (kyc_requests (step env c d)). snapshot r1 = snapshot r0"
proof -
  obtain ys where "map snapshot (kyc_requests (step env c d)) = map snapshot (kyc_requests d) @ ys"
    using step_snapshots by blast
  moreover from assms have "snapshot r0 \<in> set (map snapshot (kyc_requests d))" by simp
  ultimately have "snapshot r0 \<in> set (map snapshot (kyc_requests (step env c d)))" by simp
  then show ?thesis by auto
qed

lemma run_approves:
  assumes "snapshots_verified d" and "r0 \<in> set (kyc_requests d)" and "snapshot r0 = snapshot r"
  shows "approves r (run env cs d) = approves r d"
  using assms
proof (induction cs arbitrary: d r0)
  case Nil
  then show ?case by simp
next
  case (Cons c cs)
  obtain r1 where r1: "r1 \<in> set (kyc_requests (step env c d))" "snapshot r1 = snapshot r0"
    using step_request_kept [OF Cons.prems(2)] by blast
  have "approves r (run env cs (step env c d)) = approves r (step env c d)"
    using Cons.prems(1,3) r1
    by (intro Cons.IH [of _ r1] step_snapshots_verified) simp_all
  also have "\<dots> = approves r0 (step env c d)"
    by (rule approves_row_cong) (simp add: Cons.prems(3))
  also have "\<dots> = approves r0 d"
    by (rule step_approves [OF Cons.prems(1,2)])
  also have "\<dots> = approves r d"
    by (rule approves_row_cong) (simp add: Cons.prems(3))
  finally show ?case by simp
qed

subsection \<open>Reachable databases\<close>

lemma run_append: "run env (cs @ cs') d = run env cs' (run env cs d)"
  by (induction cs arbitrary: d) simp_all

lemma reachable_snapshots_verified: "snapshots_verified (run env cs empty_db)"
  by (rule run_snapshots_verified [OF snapshots_verified_empty])

lemma find_append_None:
  "find P xs = None \<Longrightarrow> find P (xs @ ys) = find P ys"
  by (induction xs) (simp_all split: if_splits)

lemma find_request_in: "find_request d rid = Some row \<Longrightarrow> row \<in> set (kyc_requests d)"
  by (auto simp: find_request_def find_Some_iff)

lemma process_kyc_later_same:
  assumes inv: "snapshots_verified d"
    and row: "find_request d rid = Some row" "kyc_status row = PENDING"
    and row': "find_request (run env cs d) rid = Some row'" "kyc_status row' = PENDING"
  shows "map_option kyc_status (find_request (snd (process_kyc mv rid now' lid' lts' (run env cs d))) rid)
         = map_option kyc_status (find_request (snd (process_kyc mv rid now lid lts d)) rid)"
proof -
  obtain ys where "map snapshot (kyc_requests (run env cs d)) = map snapshot (kyc_requests d) @ ys"
    using run_snapshots by blast
  from find_request_later [OF this row(1) [unfolded find_request_def]] row'(1)
  have same: "snapshot row' = snapshot row"
    by (simp add: find_request_def)
  have "approves row' (run env cs d) = approves row (run env cs d)"
    by (rule approves_row_cong [OF same])
  also have "\<dots> = approves row d"
    by (rule run_approves [OF inv find_request_in [OF row(1)] refl])
  finally have a: "approves row' (run env cs d) = approves row d" .
  from same have "documents_submitted row' = documents_submitted row"
    by (simp add: snapshot_def)
  with a have o: "outcome mv row' (run env cs d) = outcome mv row d"
    by (simp add: outcome_def)
  show ?thesis
    unfolding process_kyc_pending_fields(4) [OF row] process_kyc_pending_fields(4) [OF row']
    by (simp add: o decided_def)
qed

subsection \<open>The sample data\<close>

lemma dave_db_reached: "run sample_env dave_calls empty_db = dave_db"
  unfolding dave_db_def dave_calls_def dave_request_def dave_identity_def sample_env_def
  by (simp add: op_defs)

lemma dave_request_pending:
  "find_request dave_db ''r1'' = Some dave_request" "kyc_status dave_request = PENDING"
  by (simp_all add: dave_db_def dave_request_def find_request_def)

lemma dave_identity_found: "find_identity dave_db ''i1'' = Some dave_identity"
  by (simp add: dave_db_def dave_identity_def find_identity_def)

lemmas dave_defs = dave_db_def dave_request_def dave_identity_def sample_env_def tiny_env_def

subsection \<open>Evaluation of the decision rule; the audit log\<close>

lemma check_doc_requirements_eval:
  "check_doc_requirements level docs =
     (if level = ''basic'' then 1 \<le> length docs
      else if level = ''standard'' then 2 \<le> length docs
      else if level = ''enhanced'' then
        3 \<le> length docs \<and> list_ex (\<lambda>d. doc_type d = ''passport'' \<or> doc_type d = ''national_id'') docs
      else True)"
  unfolding check_doc_requirements_def BASIC_def STANDARD_def ENHANCED_def
    PASSPORT_def NATIONAL_ID_def Let_def list_ex_iff
  by (auto intro: rev_image_eqI)

lemmas eval_defs = create_identity_def submit_document_def verify_document_def initiate_kyc_def
  process_kyc_def revoke_identity_def suspend_identity_def reactivate_identity_def
  expire_old_identities_def then_log_def log_action_def find_identity_def find_request_def
  set_status_def set_level_def fetch_docs_def update_request_def is_level_def
  check_doc_requirements_eval UNVERIFIED_def BASIC_def STANDARD_def ENHANCED_def empty_db_def Let_def
  sample_env_def tiny_env_def

lemma map_level_set_status [simp]:
  "map verification_level (identities (set_status iid st d)) = map verification_level (identities d)"
  by (simp add: set_status_def comp_def if_distrib [of verification_level] cong: if_cong)

lemma expire_old_identities_audit:
  "audit_log (snd (expire_old_identities now d)) = audit_log d"
  by (simp add: expire_old_identities_def Let_def)

lemma logging_calls_append_one:
  "fst (create_identity h name email bio new_id issued expires lid lts d) = Inr r1 \<Longrightarrow>
     \<exists>e. action e = ''CREATE_IDENTITY'' \<and>
       audit_log (snd (create_identity h name email bio new_id issued expires lid lts d))
         = audit_log d @ [e]"
  "fst (submit_document iid dtype shown num country exp new_id lid lts d) = Inr r2 \<Longrightarrow>
     \<exists>e. action e = ''SUBMIT_DOCUMENT'' \<and>
       audit_log (snd (submit_document iid dtype shown num country exp new_id lid lts d))
         = audit_log d @ [e]"
  "fst (verify_document iid did now lid lts d) = Inr r3 \<Longrightarrow>
     \<exists>e. action e = ''VERIFY_DOCUMENT'' \<and>
       audit_log (snd (verify_document iid did now lid lts d)) = audit_log d @ [e]"
  "fst (initiate_kyc iid lvl shown new_id created lid lts d) = Inr r4 \<Longrightarrow>
     \<exists>e. action e = ''INITIATE_KYC'' \<and>
       audit_log (snd (initiate_kyc iid lvl shown new_id created lid lts d)) = audit_log d @ [e]"
  "fst (process_kyc mv rid now lid lts d) = Inr r5 \<Longrightarrow>
     \<exists>e. action e = ''PROCESS_KYC'' \<and>
       audit_log (snd (process_kyc mv rid now lid lts d)) = audit_log d @ [e]"
  "fst (revoke_identity iid reason lid lts d) = Inr r6 \<Longrightarrow>
     \<exists>e. action e = ''REVOKE_IDENTITY'' \<and>
       audit_log (snd (revoke_identity iid reason lid lts d)) = audit_log d @ [e]"
  "fst (suspend_identity iid reason lid lts d) = Inr r7 \<Longrightarrow>
     \<exists>e. action e = ''SUSPEND_IDENTITY'' \<and>
       audit_log (snd (suspend_identity iid reason lid lts d)) = audit_log d @ [e]"
  "fst (reactivate_identity iid lid lts d) = Inr r8 \<Longrightarrow>
     \<exists>e. action e = ''REACTIVATE_IDENTITY'' \<and>
       audit_log (snd (reactivate_identity iid lid lts d)) = audit_log d @ [e]"
  by (auto simp: create_identity_def submit_document_def verify_document_def initiate_kyc_def
        process_kyc_def revoke_identity_def suspend_identity_def reactivate_identity_def
        then_log_def log_action_def set_status_def set_level_def update_request_def Let_def
        fetch_docs_eq
      split: option.splits if_splits)

lemma process_kyc_audit:
  "\<exists>es. audit_log (snd (process_kyc mv rid now lid lts d)) = audit_log d @ es"
proof (cases "\<exists>row. find_request d rid = Some row \<and> kyc_status row = PENDING")
  case True
  then obtain row where r: "find_request d rid = Some row" "kyc_status row = PENDING"
    by blast
  show ?thesis
  proof (cases "length (documents_submitted row) > mv")
    case True
    show ?thesis
      unfolding process_kyc_too_many [OF r True] by (simp add: update_request_def)
  next
    case False
    then have le: "length (documents_submitted row) \<le> mv" by simp
    show ?thesis
      unfolding process_kyc_pending_db [OF r le]
      by (simp add: log_action_def update_request_def set_level_def)
  qed
next
  case False
  then have "snd (process_kyc mv rid now lid lts d) = d"
    by (intro process_kyc_unchanged) (cases "find_request d rid"; simp)
  then show ?thesis by simp
qed

lemma step_audit_append_only:
  "\<exists>es. audit_log (step env c d) = audit_log d @ es"
proof (cases c)
  case (ProcessKyc rid now lid lts)
  then show ?thesis by (simp add: process_kyc_audit)
qed (simp_all add: create_identity_def submit_document_def verify_document_def initiate_kyc_def
       revoke_identity_def suspend_identity_def reactivate_identity_def
       expire_old_identities_audit then_log_audit set_status_def Let_def split: option.split)

lemma run_audit_append_only:
  "\<exists>es. audit_log (run env cs d) = audit_log d @ es"
proof (induction cs arbitrary: d)
  case Nil
  then show ?case by simp
next
  case (Cons c cs)
  obtain es where 1: "audit_log (step env c d) = audit_log d @ es"
    using step_audit_append_only by blast
  obtain es' where 2: "audit_log (run env cs (step env c d)) = audit_log (step env c d) @ es'"
    using Cons.IH by blast
  show ?case by (simp add: 1 2)
qed

subsection \<open>Requests that are no longer pending\<close>

lemma find_append_Some:
  "find P xs = Some x \<Longrightarrow> find P (xs @ ys) = Some x"
  by (induction xs) (simp_all split: if_splits)

lemma step_processed_stays:
  assumes "find_request d rid = Some row" and "kyc_status row \<noteq> PENDING"
  shows "\<exists>row'. find_request (step env c d) rid = Some row' \<and> kyc_status row' \<noteq> PENDING"
proof (cases c)
  case (InitiateKyc iid lvl shown new_id created lid lts)
  have "find_request (step env c d) rid = Some row"
    using assms(1)
    by (simp add: InitiateKyc find_request_def initiate_kyc_requests find_append_Some)
  with assms(2) show ?thesis by simp
next
  case (ProcessKyc rid' now lid lts)
  show ?thesis
  proof (cases "\<exists>row2. find_request d rid' = Some row2 \<and> kyc_status row2 = PENDING")
    case True
    then obtain row2 where r: "find_request d rid' = Some row2" "kyc_status row2 = PENDING"
      by blast
    with assms have ne: "rid \<noteq> rid'" by auto
    let ?mv = "max_variable_number env"
    have "find_request (snd (process_kyc ?mv rid' now lid lts d)) rid
            = find_request (update_request rid' (decided (outcome ?mv row2 d) now) d) rid"
      by (rule find_request_cong) (rule process_kyc_pending_fields(3) [OF r])
    also have "\<dots> = find_request d rid"
      using ne by (simp add: find_update_request decided_def)
    finally show ?thesis
      using assms by (simp add: ProcessKyc)
  next
    case False
    then have "snd (process_kyc (max_variable_number env) rid' now lid lts d) = d"
      by (intro process_kyc_unchanged) (cases "find_request d rid'"; simp)
    with assms show ?thesis
      by (simp add: ProcessKyc)
  qed
qed (use assms in \<open>simp_all add: find_request_def\<close>)

lemma run_processed_stays:
  assumes "find_request d rid = Some row" and "kyc_status row \<noteq> PENDING"
  shows "\<exists>row'. find_request (run env cs d) rid = Some row' \<and> kyc_status row' \<noteq> PENDING"
  using assms
proof (induction cs arbitrary: d row)
  case Nil
  then show ?case by simp
next
  case (Cons c cs)
  from step_processed_stays [OF Cons.prems, of env c]
  obtain row1 where "find_request (step env c d) rid = Some row1" "kyc_status row1 \<noteq> PENDING"
    by blast
  from Cons.IH [OF this] show ?case by simp
qed

section \<open>Properties\<close>

text \<open>
  C1.  For every level string and every list of document rows,
  \<open>_check_doc_requirements\<close> is true exactly when the level is \<open>basic\<close> and there is at
  least one document, or it is \<open>standard\<close> and there are at least two, or it is
  \<open>enhanced\<close> and there are at least three of which one has type \<open>passport\<close> or
  \<open>national_id\<close>, or the level is any other string.
\<close>

theorem check_doc_requirements_iff:
  "check_doc_requirements level docs =
     (level = ''basic'' \<and> length docs \<ge> 1
      \<or> level = ''standard'' \<and> length docs \<ge> 2
      \<or> level = ''enhanced'' \<and> length docs \<ge> 3
          \<and> (\<exists>d \<in> set docs. doc_type d = ''passport'' \<or> doc_type d = ''national_id'')
      \<or> level \<notin> {''basic'', ''standard'', ''enhanced''})"
  unfolding check_doc_requirements_def BASIC_def STANDARD_def ENHANCED_def
    PASSPORT_def NATIONAL_ID_def Let_def
  by (auto intro: rev_image_eqI)


theorem check_doc_requirements_iff_witness:
  "\<not> check_doc_requirements ''enhanced''
       [\<lparr>doc_id = ''a'', doc_identity_id = ''i'', doc_type = ''license'', number = ''1'',
          issuing_country = ''US'', expiry = ''2030'', verified = True, verified_at = Some ''t''\<rparr>,
        \<lparr>doc_id = ''b'', doc_identity_id = ''i'', doc_type = ''license'', number = ''2'',
          issuing_country = ''US'', expiry = ''2030'', verified = True, verified_at = Some ''t''\<rparr>,
        \<lparr>doc_id = ''c'', doc_identity_id = ''i'', doc_type = ''license'', number = ''3'',
          issuing_country = ''US'', expiry = ''2030'', verified = True, verified_at = Some ''t''\<rparr>]
   \<and> check_doc_requirements ''gold'' []"
  using check_doc_requirements_iff [of "''gold''" "[]"]
  by (simp add: check_doc_requirements_iff)

text \<open>
  C2.  For a pending request, \<open>process_kyc\<close> leaves the request APPROVED only if the
  snapshot \<open>documents_submitted\<close> is not empty, some stored document has an id of the
  snapshot, and every stored document with an id of the snapshot is verified now.  If
  no stored document of the snapshot is verified, then the request is left REJECTED,
  whatever the requested level: in every database reached from the empty one (there a
  snapshot without a verified document is empty, and no SELECT runs), and in any
  database when the snapshot has no more ids than SQLite allows host parameters.  The
  request is left APPROVED or REJECTED, or else PROCESSING, which happens exactly when
  the snapshot has more ids than that limit: then the call raises.  A request that is
  returned has the stored status.
\<close>

theorem process_kyc_approves_only_verified:
  assumes "find_request d rid = Some row" and "kyc_status row = PENDING"
  shows "\<exists>row'. find_request (snd (process_kyc mv rid now lid lts d)) rid = Some row'
           \<and> (kyc_status row' = APPROVED \<longrightarrow>
                 documents_submitted row \<noteq> []
                 \<and> (\<exists>x \<in> set (documents d). doc_id x \<in> set (documents_submitted row))
                 \<and> (\<forall>x \<in> set (documents d).
                       doc_id x \<in> set (documents_submitted row) \<longrightarrow> verified x))
           \<and> ((\<forall>x \<in> set (documents d).
                  doc_id x \<in> set (documents_submitted row) \<longrightarrow> \<not> verified x)
                \<and> (length (documents_submitted row) \<le> mv \<or> (\<exists>env cs0. d = run env cs0 empty_db))
                \<longrightarrow> kyc_status row' = REJECTED)
           \<and> (kyc_status row' = APPROVED \<or> kyc_status row' = REJECTED
                \<or> kyc_status row' = PROCESSING)
           \<and> (kyc_status row' = PROCESSING \<longleftrightarrow> mv < length (documents_submitted row))
           \<and> (mv < length (documents_submitted row) \<longleftrightarrow>
                 fst (process_kyc mv rid now lid lts d) = Inl OperationalError)
           \<and> (\<forall>req. fst (process_kyc mv rid now lid lts d) = Inr req
                  \<longrightarrow> kyc_status req = kyc_status row')"
proof -
  let ?o = "outcome mv row d"
  let ?row' = "decided ?o now row"
  have F: "find_request (snd (process_kyc mv rid now lid lts d)) rid = Some ?row'"
    by (rule process_kyc_pending_fields(4) [OF assms])
  have S: "kyc_status ?row' = ?o"
    by (simp add: decided_def)
  have A: "kyc_status ?row' = APPROVED \<longrightarrow>
             documents_submitted row \<noteq> []
             \<and> (\<exists>x \<in> set (documents d). doc_id x \<in> set (documents_submitted row))
             \<and> (\<forall>x \<in> set (documents d).
                   doc_id x \<in> set (documents_submitted row) \<longrightarrow> verified x)"
    using approves_only_verified [of row d] by (simp add: S outcome_cases)
  have R: "kyc_status ?row' = REJECTED"
    if none: "\<forall>x \<in> set (documents d). doc_id x \<in> set (documents_submitted row) \<longrightarrow> \<not> verified x"
      and lim: "length (documents_submitted row) \<le> mv \<or> (\<exists>env cs0. d = run env cs0 empty_db)"
  proof -
    from none approves_only_verified(2,3) [of row d] have na: "\<not> approves row d"
      by blast
    have "length (documents_submitted row) \<le> mv"
      using lim
    proof
      assume "\<exists>env cs0. d = run env cs0 empty_db"
      then have inv: "snapshots_verified d"
        using reachable_snapshots_verified by blast
      have r: "row \<in> set (kyc_requests d)"
        by (rule find_request_in [OF assms(1)])
      have "documents_submitted row = []"
      proof (rule ccontr)
        assume "documents_submitted row \<noteq> []"
        then obtain k where k: "k \<in> set (documents_submitted row)"
          by (cases "documents_submitted row") auto
        with snapshots_verifiedD(2) [OF inv r] obtain x
          where x: "x \<in> set (documents d)" "doc_id x = k"
          by auto
        with snapshots_verifiedD(3) [OF inv r, of x] k have "verified x" by simp
        with none x k show False by blast
      qed
      then show ?thesis by simp
    qed
    with na show ?thesis
      by (simp add: S outcome_cases)
  qed
  have T: "kyc_status ?row' = APPROVED \<or> kyc_status ?row' = REJECTED
             \<or> kyc_status ?row' = PROCESSING"
    unfolding S by (simp add: outcome_def)
  have P: "kyc_status ?row' = PROCESSING \<longleftrightarrow> mv < length (documents_submitted row)"
    unfolding S by (rule outcome_cases)
  have E: "mv < length (documents_submitted row) \<longleftrightarrow>
             fst (process_kyc mv rid now lid lts d) = Inl OperationalError"
    by (rule process_kyc_pending_result(2) [OF assms])
  have V: "\<forall>req. fst (process_kyc mv rid now lid lts d) = Inr req
             \<longrightarrow> kyc_status req = kyc_status ?row'"
    using process_kyc_pending_result(1) [OF assms] S by simp
  from F A R T P E V show ?thesis
    by (intro exI [of _ ?row']) (simp del: split_paired_All split_paired_Ex)
qed

theorem process_kyc_approves_only_verified_witness:
  "find_request dave_db ''r1'' = Some dave_request \<and> kyc_status dave_request = PENDING
   \<and> (\<exists>row'. find_request (snd (process_kyc 32766 ''r1'' ''2026-01-05'' ''l5'' ''2026-01-05'' dave_db))
                 ''r1'' = Some row'
          \<and> kyc_status row' = APPROVED
          \<and> documents_submitted dave_request \<noteq> []
          \<and> (\<exists>x \<in> set (documents dave_db). doc_id x \<in> set (documents_submitted dave_request)))
   \<and> (\<exists>row'. find_request (snd (process_kyc 0 ''r1'' ''2026-01-05'' ''l5'' ''2026-01-05'' dave_db))
                 ''r1'' = Some row'
          \<and> kyc_status row' = PROCESSING)
   \<and> fst (process_kyc 0 ''r1'' ''2026-01-05'' ''l5'' ''2026-01-05'' dave_db) = Inl OperationalError"
proof -
  have 1: "find_request (snd (process_kyc 32766 ''r1'' ''2026-01-05'' ''l5'' ''2026-01-05'' dave_db)) ''r1''
          = Some (dave_request\<lparr>kyc_status := APPROVED,
                    kyc_notes := ''All documents verified and requirements met.'',
                    processed_at := Some ''2026-01-05''\<rparr>)"
    unfolding dave_defs by (simp add: op_defs)
  have 2: "0 < length (documents_submitted dave_request)"
    by (simp add: dave_defs)
  from process_kyc_approves_only_verified
         [OF dave_request_pending, of 32766 "''2026-01-05''" "''l5''" "''2026-01-05''"] 1
  have a: "\<exists>row'. find_request (snd (process_kyc 32766 ''r1'' ''2026-01-05'' ''l5'' ''2026-01-05'' dave_db))
                 ''r1'' = Some row'
          \<and> kyc_status row' = APPROVED
          \<and> documents_submitted dave_request \<noteq> []
          \<and> (\<exists>x \<in> set (documents dave_db). doc_id x \<in> set (documents_submitted dave_request))"
    by auto
  from process_kyc_approves_only_verified
         [OF dave_request_pending, of 0 "''2026-01-05''" "''l5''" "''2026-01-05''"] 2
  have b: "(\<exists>row'. find_request (snd (process_kyc 0 ''r1'' ''2026-01-05'' ''l5'' ''2026-01-05'' dave_db))
                 ''r1'' = Some row'
          \<and> kyc_status row' = PROCESSING)
     \<and> fst (process_kyc 0 ''r1'' ''2026-01-05'' ''l5'' ''2026-01-05'' dave_db) = Inl OperationalError"
    by blast
  from a b dave_request_pending show ?thesis by blast
qed

text \<open>
  C3.  For a pending request, \<open>process_kyc\<close> changes of the request's row exactly the
  status, the notes and the processed-at timestamp (set to \<open>now\<close>).  When the stored
  status is APPROVED, the notes say so and the identities table is the old one with
  \<open>verification_level\<close> set to the requested level in the rows of the request's
  identity; when it is REJECTED, the notes say so and the identities table is unchanged.
  The stored status is APPROVED or REJECTED whenever the snapshot has no more ids than
  SQLite allows host parameters; when it has more, the call raises after its first
  UPDATE, and the database is the old one with the request PROCESSING and its
  processed-at set.
\<close>

theorem process_kyc_effects:
  assumes "find_request d rid = Some row" and "kyc_status row = PENDING"
  shows "\<exists>row'. find_request (snd (process_kyc mv rid now lid lts d)) rid = Some row'
           \<and> row' = row\<lparr>kyc_status := kyc_status row', kyc_notes := kyc_notes row',
                        processed_at := Some now\<rparr>
           \<and> (kyc_status row' = APPROVED \<longrightarrow>
                 kyc_notes row' = ''All documents verified and requirements met.''
                 \<and> identities (snd (process_kyc mv rid now lid lts d)) =
                     map (\<lambda>i. if identity_id i = kyc_identity_id row
                              then i\<lparr>verification_level := requested_level row\<rparr> else i)
                       (identities d))
           \<and> (kyc_status row' = REJECTED \<longrightarrow>
                 kyc_notes row' = ''Insufficient verified documents or requirements not met.''
                 \<and> identities (snd (process_kyc mv rid now lid lts d)) = identities d)
           \<and> (length (documents_submitted row) \<le> mv \<longrightarrow>
                 kyc_status row' = APPROVED \<or> kyc_status row' = REJECTED)
           \<and> (mv < length (documents_submitted row) \<longrightarrow>
                 process_kyc mv rid now lid lts d =
                   (Inl OperationalError,
                    update_request rid
                      (\<lambda>r. r\<lparr>kyc_status := PROCESSING, processed_at := Some now\<rparr>) d))"
proof -
  let ?o = "outcome mv row d"
  let ?row' = "decided ?o now row"
  note F = process_kyc_pending_fields [OF assms, of mv now lid lts]
  have L: "length (documents_submitted row) \<le> mv \<longrightarrow>
             kyc_status ?row' = APPROVED \<or> kyc_status ?row' = REJECTED"
    by (simp add: decided_def outcome_def)
  have M: "mv < length (documents_submitted row) \<longrightarrow>
             process_kyc mv rid now lid lts d =
               (Inl OperationalError,
                update_request rid
                  (\<lambda>r. r\<lparr>kyc_status := PROCESSING, processed_at := Some now\<rparr>) d)"
    using process_kyc_too_many [OF assms] by blast
  have A: "kyc_status ?row' = APPROVED \<longrightarrow>
             kyc_notes ?row' = ''All documents verified and requirements met.''
             \<and> identities (snd (process_kyc mv rid now lid lts d)) =
                 map (\<lambda>i. if identity_id i = kyc_identity_id row
                          then i\<lparr>verification_level := requested_level row\<rparr> else i)
                   (identities d)"
    by (simp add: F(1) decided_def set_level_def)
  have R: "kyc_status ?row' = REJECTED \<longrightarrow>
             kyc_notes ?row' = ''Insufficient verified documents or requirements not met.''
             \<and> identities (snd (process_kyc mv rid now lid lts d)) = identities d"
    by (simp add: F(1) decided_def)
  have U: "?row' = row\<lparr>kyc_status := kyc_status ?row', kyc_notes := kyc_notes ?row',
                        processed_at := Some now\<rparr>"
    by (simp add: decided_def)
  from F(4) U A R L M show ?thesis
    by (intro exI [of _ ?row']) blast
qed

theorem process_kyc_effects_witness:
  "find_request dave_db ''r1'' = Some dave_request \<and> kyc_status dave_request = PENDING
   \<and> (\<exists>row'. find_request (snd (process_kyc 32766 ''r1'' ''2026-01-05'' ''l5'' ''2026-01-05'' dave_db))
                 ''r1'' = Some row'
          \<and> kyc_status row' = APPROVED \<and> processed_at row' = Some ''2026-01-05''
          \<and> kyc_notes row' = ''All documents verified and requirements met.''
          \<and> identities (snd (process_kyc 32766 ''r1'' ''2026-01-05'' ''l5'' ''2026-01-05'' dave_db))
               = [dave_identity\<lparr>verification_level := ''basic''\<rparr>])
   \<and> process_kyc 0 ''r1'' ''2026-01-05'' ''l5'' ''2026-01-05'' dave_db =
       (Inl OperationalError,
        dave_db\<lparr>kyc_requests :=
          [dave_request\<lparr>kyc_status := PROCESSING, processed_at := Some ''2026-01-05''\<rparr>]\<rparr>)"
proof -
  have "find_request (snd (process_kyc 32766 ''r1'' ''2026-01-05'' ''l5'' ''2026-01-05'' dave_db)) ''r1''
          = Some (dave_request\<lparr>kyc_status := APPROVED,
                    kyc_notes := ''All documents verified and requirements met.'',
                    processed_at := Some ''2026-01-05''\<rparr>)"
    unfolding dave_defs by (simp add: op_defs)
  moreover have "identities dave_db = [dave_identity]"
    "identity_id dave_identity = kyc_identity_id dave_request"
    "requested_level dave_request = ''basic''"
    by (simp_all add: dave_defs)
  ultimately have a: "\<exists>row'. find_request (snd (process_kyc 32766 ''r1'' ''2026-01-05'' ''l5'' ''2026-01-05'' dave_db))
                 ''r1'' = Some row'
          \<and> kyc_status row' = APPROVED \<and> processed_at row' = Some ''2026-01-05''
          \<and> kyc_notes row' = ''All documents verified and requirements met.''
          \<and> identities (snd (process_kyc 32766 ''r1'' ''2026-01-05'' ''l5'' ''2026-01-05'' dave_db))
               = [dave_identity\<lparr>verification_level := ''basic''\<rparr>]"
    using process_kyc_effects
            [OF dave_request_pending, of 32766 "''2026-01-05''" "''l5''" "''2026-01-05''"]
    by auto
  have "0 < length (documents_submitted dave_request)"
    "update_request ''r1'' (\<lambda>r. r\<lparr>kyc_status := PROCESSING, processed_at := Some ''2026-01-05''\<rparr>)
       dave_db
     = dave_db\<lparr>kyc_requests :=
          [dave_request\<lparr>kyc_status := PROCESSING, processed_at := Some ''2026-01-05''\<rparr>]\<rparr>"
    by (simp_all add: dave_defs update_request_def)
  with process_kyc_effects
         [OF dave_request_pending, of 0 "''2026-01-05''" "''l5''" "''2026-01-05''"]
  have b: "process_kyc 0 ''r1'' ''2026-01-05'' ''l5'' ''2026-01-05'' dave_db =
       (Inl OperationalError,
        dave_db\<lparr>kyc_requests :=
          [dave_request\<lparr>kyc_status := PROCESSING, processed_at := Some ''2026-01-05''\<rparr>]\<rparr>)"
    by auto
  from a b dave_request_pending show ?thesis by blast
qed

text \<open>
  C4.  For a stored request that is not PENDING, \<open>process_kyc\<close> raises the invalid-state
  error and leaves the whole database as it was.  For every stored request, a
  \<open>process_kyc\<close> call that follows a \<open>process_kyc\<close> call on the same request raises that
  error and changes nothing, directly after it and also after any list of calls in
  between: a request is processed at most once.
\<close>

theorem process_kyc_at_most_once:
  assumes "find_request d rid = Some row"
  shows "(kyc_status row \<noteq> PENDING \<longrightarrow> process_kyc mv rid now lid lts d = (Inl InvalidState, d))
         \<and> process_kyc mv rid now2 lid2 lts2 (snd (process_kyc mv rid now lid lts d))
             = (Inl InvalidState, snd (process_kyc mv rid now lid lts d))
         \<and> process_kyc mv rid now2 lid2 lts2 (run env cs (snd (process_kyc mv rid now lid lts d)))
             = (Inl InvalidState, run env cs (snd (process_kyc mv rid now lid lts d)))"
proof -
  let ?d' = "snd (process_kyc mv rid now lid lts d)"
  have 1: "kyc_status row \<noteq> PENDING \<longrightarrow> process_kyc mv rid now lid lts d = (Inl InvalidState, d)"
    using assms by (simp add: process_kyc_not_pending)
  have "\<exists>row'. find_request ?d' rid = Some row' \<and> kyc_status row' \<noteq> PENDING"
  proof (cases "kyc_status row = PENDING")
    case True
    have "find_request ?d' rid = Some (decided (outcome mv row d) now row)"
      by (rule process_kyc_pending_fields(4) [OF assms True])
    moreover have "kyc_status (decided (outcome mv row d) now row) \<noteq> PENDING"
      by (simp add: decided_def outcome_cases)
    ultimately show ?thesis by blast
  next
    case False
    with assms 1 show ?thesis by simp
  qed
  then obtain row' where r': "find_request ?d' rid = Some row'" "kyc_status row' \<noteq> PENDING"
    by blast
  have 2: "process_kyc mv rid now2 lid2 lts2 ?d' = (Inl InvalidState, ?d')"
    by (rule process_kyc_not_pending [OF r'])
  obtain row2 where "find_request (run env cs ?d') rid = Some row2" "kyc_status row2 \<noteq> PENDING"
    using run_processed_stays [OF r'] by blast
  then have 3: "process_kyc mv rid now2 lid2 lts2 (run env cs ?d') = (Inl InvalidState, run env cs ?d')"
    by (rule process_kyc_not_pending)
  from 1 2 3 show ?thesis by blast
qed

theorem process_kyc_at_most_once_witness:
  "find_request dave_db ''r1'' = Some dave_request
   \<and> fst (process_kyc 32766 ''r1'' ''2026-01-05'' ''l5'' ''2026-01-05'' dave_db) \<noteq> Inl InvalidState
   \<and> process_kyc 32766 ''r1'' ''2026-01-06'' ''l6'' ''2026-01-06''
         (snd (process_kyc 32766 ''r1'' ''2026-01-05'' ''l5'' ''2026-01-05'' dave_db))
       = (Inl InvalidState, snd (process_kyc 32766 ''r1'' ''2026-01-05'' ''l5'' ''2026-01-05'' dave_db))
   \<and> fst (process_kyc 32766 ''r1'' ''2026-01-08'' ''l8'' ''2026-01-08''
         (run sample_env dave_later_calls
            (snd (process_kyc 32766 ''r1'' ''2026-01-05'' ''l5'' ''2026-01-05'' dave_db))))
       = Inl InvalidState"
proof -
  have "fst (process_kyc 32766 ''r1'' ''2026-01-05'' ''l5'' ''2026-01-05'' dave_db) \<noteq> Inl InvalidState"
    unfolding dave_defs by (simp add: op_defs)
  then show ?thesis
    using process_kyc_at_most_once [OF dave_request_pending(1), of 32766 _ _ _ _ _ _ sample_env
        dave_later_calls] dave_request_pending(1)
    by simp
qed

text \<open>
  C5.  (1) When \<open>initiate_kyc\<close> is called for an existing identity with a new request
  id, the request it stores is PENDING and the set of its \<open>documents_submitted\<close> is the
  set of ids of the identity's documents that are verified in the database of the call.
  (2) After any list of calls \<open>cs\<close>, the requests that were stored before are still
  there, in place, each with the \<open>snapshot\<close> it had (its id, identity, requested level,
  \<open>documents_submitted\<close> and creation time).  (3) In a database \<open>d\<close> reached from the
  empty one, for a pending request that is still pending after the calls \<open>cs\<close>:
  \<open>process_kyc\<close> decides it after \<open>cs\<close> as it would have decided it in \<open>d\<close>.  (4) In
  particular a \<open>verify_document\<close> call, whatever its arguments, does not change how a
  pending request is decided.
\<close>

theorem snapshot_frozen:
  "(find_identity d iid \<noteq> None \<and> new_id \<notin> set (map request_id (kyc_requests d)) \<longrightarrow>
      (\<exists>req. find_request (snd (initiate_kyc iid lvl shown new_id created lid lts d)) new_id = Some req
         \<and> kyc_status req = PENDING
         \<and> set (documents_submitted req)
             = {doc_id x |x. x \<in> set (documents d) \<and> doc_identity_id x = iid \<and> verified x}))
   \<and> take (length (kyc_requests d)) (map snapshot (kyc_requests (run env cs d)))
        = map snapshot (kyc_requests d)
   \<and> (\<forall>cs0 row row'.
         d = run env cs0 empty_db \<and> find_request d rid = Some row \<and> kyc_status row = PENDING
         \<and> find_request (run env cs d) rid = Some row' \<and> kyc_status row' = PENDING \<longrightarrow>
         documents_submitted row' = documents_submitted row
         \<and> map_option kyc_status
              (find_request (snd (process_kyc mv rid now' lid' lts' (run env cs d))) rid)
            = map_option kyc_status (find_request (snd (process_kyc mv rid now lid lts d)) rid))
   \<and> (\<forall>cs0 row.
         d = run env cs0 empty_db \<and> find_request d rid = Some row \<and> kyc_status row = PENDING \<longrightarrow>
         map_option kyc_status
           (find_request
              (snd (process_kyc mv rid now' lid' lts' (snd (verify_document vid did vnow vlid vlts d))))
              rid)
         = map_option kyc_status (find_request (snd (process_kyc mv rid now lid lts d)) rid))"
proof (intro conjI allI impI)
  assume a: "find_identity d iid \<noteq> None \<and> new_id \<notin> set (map request_id (kyc_requests d))"
  let ?req = "\<lparr>request_id = new_id, kyc_identity_id = iid, requested_level = lvl,
          documents_submitted =
            map doc_id (filter (\<lambda>x. doc_identity_id x = iid \<and> verified x) (documents d)),
          kyc_status = PENDING, kyc_notes = [], processed_at = None, created_at = created\<rparr>"
  have k: "kyc_requests (snd (initiate_kyc iid lvl shown new_id created lid lts d)) = kyc_requests d @ [?req]"
    using a by (simp add: initiate_kyc_requests)
  have "find (\<lambda>r. request_id r = new_id) (kyc_requests d) = None"
    using a by (auto simp: find_None_iff)
  then have "find_request (snd (initiate_kyc iid lvl shown new_id created lid lts d)) new_id = Some ?req"
    unfolding find_request_def k by (simp add: find_append_None)
  moreover have "set (documents_submitted ?req)
             = {doc_id x |x. x \<in> set (documents d) \<and> doc_identity_id x = iid \<and> verified x}"
    by auto
  ultimately show "\<exists>req. find_request (snd (initiate_kyc iid lvl shown new_id created lid lts d)) new_id = Some req
         \<and> kyc_status req = PENDING
         \<and> set (documents_submitted req)
             = {doc_id x |x. x \<in> set (documents d) \<and> doc_identity_id x = iid \<and> verified x}"
    by (intro exI [of _ ?req]) simp
next
  obtain ys where "map snapshot (kyc_requests (run env cs d)) = map snapshot (kyc_requests d) @ ys"
    using run_snapshots by blast
  then show "take (length (kyc_requests d)) (map snapshot (kyc_requests (run env cs d)))
        = map snapshot (kyc_requests d)"
    by simp
next
  fix cs0 row row'
  assume a: "d = run env cs0 empty_db \<and> find_request d rid = Some row \<and> kyc_status row = PENDING
         \<and> find_request (run env cs d) rid = Some row' \<and> kyc_status row' = PENDING"
  from a have r: "find_request d rid = Some row" and r': "find_request (run env cs d) rid = Some row'"
    by blast+
  obtain ys where "map snapshot (kyc_requests (run env cs d)) = map snapshot (kyc_requests d) @ ys"
    using run_snapshots by blast
  from find_request_later [OF this r [unfolded find_request_def]] r' [unfolded find_request_def]
  show "documents_submitted row' = documents_submitted row"
    by (auto simp: snapshot_def)
next
  fix cs0 row row'
  assume a: "d = run env cs0 empty_db \<and> find_request d rid = Some row \<and> kyc_status row = PENDING
         \<and> find_request (run env cs d) rid = Some row' \<and> kyc_status row' = PENDING"
  from a have inv: "snapshots_verified d"
    using reachable_snapshots_verified by blast
  from a have r: "find_request d rid = Some row" "kyc_status row = PENDING"
    and r': "find_request (run env cs d) rid = Some row'" "kyc_status row' = PENDING"
    by blast+
  show "map_option kyc_status
              (find_request (snd (process_kyc mv rid now' lid' lts' (run env cs d))) rid)
            = map_option kyc_status (find_request (snd (process_kyc mv rid now lid lts d)) rid)"
    by (rule process_kyc_later_same [OF inv r r'])
next
  fix cs0 row
  assume a: "d = run env cs0 empty_db \<and> find_request d rid = Some row \<and> kyc_status row = PENDING"
  from a have inv: "snapshots_verified d"
    using reachable_snapshots_verified by blast
  from a have r: "find_request d rid = Some row" "kyc_status row = PENDING"
    by blast+
  let ?d' = "snd (verify_document vid did vnow vlid vlts d)"
  have run: "?d' = run env [VerifyDocument vid did vnow vlid vlts] d"
    by simp
  have "find_request ?d' rid = find_request d rid"
    by (simp add: find_request_def)
  with r have r': "find_request (run env [VerifyDocument vid did vnow vlid vlts] d) rid = Some row"
    by simp
  show "map_option kyc_status
           (find_request (snd (process_kyc mv rid now' lid' lts' ?d')) rid)
         = map_option kyc_status (find_request (snd (process_kyc mv rid now lid lts d)) rid)"
    unfolding run
    by (rule process_kyc_later_same [OF inv r r' r(2)])
qed


theorem snapshot_frozen_witness:
  "dave_db = run sample_env dave_calls empty_db
   \<and> find_request dave_db ''r1'' = Some dave_request \<and> kyc_status dave_request = PENDING
   \<and> find_request (run sample_env dave_later_calls dave_db) ''r1'' = Some dave_request
   \<and> length (documents (run sample_env dave_later_calls dave_db)) = 2
   \<and> list_all verified (documents (run sample_env dave_later_calls dave_db))
   \<and> map_option kyc_status
        (find_request (snd (process_kyc 32766 ''r1'' ''2026-01-08'' ''l8'' ''2026-01-08''
                              (run sample_env dave_later_calls dave_db))) ''r1'')
      = map_option kyc_status
          (find_request (snd (process_kyc 32766 ''r1'' ''2026-01-05'' ''l5'' ''2026-01-05'' dave_db)) ''r1'')
   \<and> take (length (kyc_requests dave_db))
        (map snapshot (kyc_requests (run sample_env dave_later_calls dave_db)))
      = map snapshot (kyc_requests dave_db)"
proof -
  have later: "run sample_env dave_later_calls dave_db =
      dave_db\<lparr>documents := documents dave_db @
          [\<lparr>doc_id = ''d2'', doc_identity_id = ''i1'', doc_type = ''license'', number = ''DL789'',
            issuing_country = ''CA'', expiry = ''2028-06-01'', verified = True,
            verified_at = Some ''2026-01-07''\<rparr>],
        audit_log := audit_log dave_db @
          [\<lparr>log_id = ''l6'', log_identity_id = ''i1'', action = ''SUBMIT_DOCUMENT'',
            details = ''Submitted license document'', timestamp = ''2026-01-06''\<rparr>,
           \<lparr>log_id = ''l7'', log_identity_id = ''i1'', action = ''VERIFY_DOCUMENT'',
            details = ''Document d2 verified'', timestamp = ''2026-01-07''\<rparr>]\<rparr>"
    unfolding dave_defs dave_later_calls_def by (simp add: op_defs)
  have r': "find_request (run sample_env dave_later_calls dave_db) ''r1'' = Some dave_request"
    unfolding later by (simp add: find_request_def dave_defs)
  have docs: "length (documents (run sample_env dave_later_calls dave_db)) = 2"
    "list_all verified (documents (run sample_env dave_later_calls dave_db))"
    unfolding later by (simp_all add: dave_defs)
  note inst = snapshot_frozen [where d = dave_db and env = sample_env and mv = 32766
      and cs = dave_later_calls
      and rid = "''r1''" and now' = "''2026-01-08''" and lid' = "''l8''" and lts' = "''2026-01-08''"
      and now = "''2026-01-05''" and lid = "''l5''" and lts = "''2026-01-05''"]
  from inst have "take (length (kyc_requests dave_db))
        (map snapshot (kyc_requests (run sample_env dave_later_calls dave_db)))
      = map snapshot (kyc_requests dave_db)"
    by blast
  moreover from inst have
    "dave_db = run sample_env dave_calls empty_db \<and> find_request dave_db ''r1'' = Some dave_request
       \<and> kyc_status dave_request = PENDING
       \<and> find_request (run sample_env dave_later_calls dave_db) ''r1'' = Some dave_request
       \<and> kyc_status dave_request = PENDING \<longrightarrow>
     map_option kyc_status
        (find_request (snd (process_kyc 32766 ''r1'' ''2026-01-08'' ''l8'' ''2026-01-08''
                              (run sample_env dave_later_calls dave_db))) ''r1'')
      = map_option kyc_status
          (find_request (snd (process_kyc 32766 ''r1'' ''2026-01-05'' ''l5'' ''2026-01-05'' dave_db)) ''r1'')"
    by blast
  ultimately show ?thesis
    using dave_db_reached [symmetric] dave_request_pending r' docs by blast
qed

text \<open>
  C6, counterexample.  \<open>verification_level\<close> does not only increase: \<open>process_kyc\<close>
  writes the requested level whatever the current one is.  After Erin's trace her level
  is \<open>enhanced\<close>; processing her BASIC request approves it and sets the level to
  \<open>basic\<close>.
\<close>

theorem verification_level_decreases_counterexample:
  "map verification_level (identities (run sample_env erin_calls empty_db)) = [''enhanced'']
   \<and> map verification_level
        (identities (step sample_env (ProcessKyc ''r2'' ''2026-01-07'' ''l11'' ''2026-01-07'')
                       (run sample_env erin_calls empty_db))) = [''basic'']
   \<and> map_option kyc_status
        (find_request (step sample_env (ProcessKyc ''r2'' ''2026-01-07'' ''l11'' ''2026-01-07'')
                         (run sample_env erin_calls empty_db)) ''r2'') = Some APPROVED
   \<and> level_rank ''enhanced'' = Some 3 \<and> level_rank ''basic'' = Some 1"
  unfolding erin_calls_def level_rank_def by (simp add: eval_defs)

text \<open>
  C6, as the program has it.  For every call, either the verification levels of the identities stored
  before the call are all unchanged, or the call is \<open>process_kyc\<close> on a pending request,
  the request is APPROVED by it, and the identities table is the old one with
  \<open>verification_level\<close> set to the requested level in the rows of the request's identity.
  No other call, and no \<open>process_kyc\<close> that rejects, changes a level.
\<close>

theorem verification_level_changes_only_on_approval:
  "take (length (identities d)) (map verification_level (identities (step env c d)))
     = map verification_level (identities d)
   \<or> (\<exists>rid now lid lts row row'.
          c = ProcessKyc rid now lid lts
          \<and> find_request d rid = Some row \<and> kyc_status row = PENDING
          \<and> find_request (step env c d) rid = Some row' \<and> kyc_status row' = APPROVED
          \<and> identities (step env c d)
              = map (\<lambda>i. if identity_id i = kyc_identity_id row
                       then i\<lparr>verification_level := requested_level row\<rparr> else i)
                  (identities d))"
proof (cases c)
  case (CreateIdentity name email bio new_id issued expires lid lts)
  then show ?thesis
    using create_identity_identities [of "sha256 env" name email bio new_id issued expires lid lts d]
    by auto
next
  case (ProcessKyc rid now lid lts)
  let ?mv = "max_variable_number env"
  show ?thesis
  proof (cases "\<exists>row. find_request d rid = Some row \<and> kyc_status row = PENDING")
    case True
    then obtain row where r: "find_request d rid = Some row" "kyc_status row = PENDING"
      by blast
    note F = process_kyc_pending_fields [OF r, of ?mv now lid lts]
    show ?thesis
    proof (cases "outcome ?mv row d = APPROVED")
      case True
      have "find_request (step env c d) rid = Some (decided APPROVED now row)"
        "kyc_status (decided APPROVED now row) = APPROVED"
        "identities (step env c d)
              = map (\<lambda>i. if identity_id i = kyc_identity_id row
                       then i\<lparr>verification_level := requested_level row\<rparr> else i)
                  (identities d)"
        using F(1,4) True by (simp_all add: ProcessKyc decided_def set_level_def)
      with r ProcessKyc show ?thesis by blast
    next
      case False
      then have "identities (step env c d) = identities d"
        using F(1) by (simp add: ProcessKyc)
      then show ?thesis by simp
    qed
  next
    case False
    then have "snd (process_kyc ?mv rid now lid lts d) = d"
      by (intro process_kyc_unchanged) (cases "find_request d rid"; simp)
    then show ?thesis
      by (simp add: ProcessKyc)
  qed
next
  case (ExpireOldIdentities now)
  then show ?thesis
    by (simp add: expire_old_identities_identities comp_def if_distrib [of verification_level]
          cong: if_cong)
qed (simp_all add: revoke_identity_identities suspend_identity_identities
       reactivate_identity_identities split: option.split)

theorem verification_level_changes_only_on_approval_witness:
  "map verification_level (identities dave_db) = [''unverified'']
   \<and> map verification_level
        (identities (step sample_env (ProcessKyc ''r1'' ''2026-01-05'' ''l5'' ''2026-01-05'') dave_db))
      = [''basic'']
   \<and> (\<exists>row'. find_request (step sample_env (ProcessKyc ''r1'' ''2026-01-05'' ''l5'' ''2026-01-05'') dave_db)
                 ''r1'' = Some row'
          \<and> kyc_status row' = APPROVED)"
proof -
  have 1: "map verification_level (identities dave_db) = [''unverified'']"
    by (simp add: dave_defs)
  have 2: "map verification_level
        (identities (step sample_env (ProcessKyc ''r1'' ''2026-01-05'' ''l5'' ''2026-01-05'') dave_db))
      = [''basic'']"
    by (simp add: dave_defs eval_defs)
  have 3: "length (identities dave_db) = 1"
    by (simp add: dave_defs)
  from verification_level_changes_only_on_approval
         [of dave_db sample_env "ProcessKyc ''r1'' ''2026-01-05'' ''l5'' ''2026-01-05''"]
  have "\<exists>row'. find_request (step sample_env (ProcessKyc ''r1'' ''2026-01-05'' ''l5'' ''2026-01-05'') dave_db)
                 ''r1'' = Some row'
          \<and> kyc_status row' = APPROVED"
    unfolding 1 2 3 by auto
  with 1 2 show ?thesis by blast
qed

text \<open>
  C7, counterexample.  REVOKED and EXPIRED are not terminal.  \<open>revoke_identity\<close> and
  \<open>suspend_identity\<close> write their status whatever the current one is: after Dave's
  trace, revoke then suspend then reactivate leaves his identity ACTIVE, and the expiry
  sweep followed by revoke moves it from EXPIRED to REVOKED.
\<close>

theorem terminal_status_counterexample:
  "map status (identities (run sample_env (dave_calls @
        [RevokeIdentity ''i1'' ''fraud'' ''l5'' ''2026-01-05'']) empty_db)) = [REVOKED]
   \<and> map status (identities (run sample_env (dave_calls @
        [RevokeIdentity ''i1'' ''fraud'' ''l5'' ''2026-01-05'',
         SuspendIdentity ''i1'' ''review'' ''l6'' ''2026-01-06'',
         ReactivateIdentity ''i1'' ''l7'' ''2026-01-07'']) empty_db)) = [ACTIVE]
   \<and> map status (identities (run sample_env (dave_calls @
        [ExpireOldIdentities ''2032-01-01'']) empty_db)) = [EXPIRED]
   \<and> map status (identities (run sample_env (dave_calls @
        [ExpireOldIdentities ''2032-01-01'',
         RevokeIdentity ''i1'' ''fraud'' ''l5'' ''2032-01-02'']) empty_db)) = [REVOKED]"
  unfolding run_append dave_db_reached
  by (simp add: dave_defs eval_defs)

text \<open>
  C7, as the program has it.  In a database whose identity ids are distinct (the
  table's PRIMARY KEY), for every stored identity and every list of calls in which no
  \<open>suspend_identity\<close> call names that identity (calls of \<open>suspend_identity\<close> for other
  identities may occur): the identity's row stays where it is and keeps its id; if its
  status is REVOKED it is REVOKED after the calls; if its status is EXPIRED it is
  EXPIRED or REVOKED after them.  The theorem says nothing of lists in which
  \<open>suspend_identity\<close> is called for the identity itself.
\<close>

theorem terminal_status_kept_without_suspend:
  assumes "distinct (map identity_id (identities d))"
    and "n < length (identities d)"
    and "\<forall>c \<in> set cs. \<not> suspends (identity_id (identities d ! n)) c"
  shows "n < length (identities (run env cs d))
         \<and> identity_id (identities (run env cs d) ! n) = identity_id (identities d ! n)
         \<and> (status (identities d ! n) = REVOKED \<longrightarrow>
               status (identities (run env cs d) ! n) = REVOKED)
         \<and> (status (identities d ! n) = EXPIRED \<longrightarrow>
               status (identities (run env cs d) ! n) = EXPIRED
               \<or> status (identities (run env cs d) ! n) = REVOKED)"
  using run_terminal_kept [OF assms(1,3), of env] assms(2)
  unfolding terminal_kept_def by auto

theorem terminal_status_kept_without_suspend_witness:
  "map status (identities (snd (revoke_identity ''i1'' ''fraud'' ''l5'' ''2026-01-05'' dave_db)))
     = [REVOKED]
   \<and> map status (identities
        (run sample_env
           [CreateIdentity ''Eve Black'' ''eve@example.com'' None ''i2'' ''2026-01-06''
              ''2031-01-06'' ''l6'' ''2026-01-06'',
            SuspendIdentity ''i2'' ''under review'' ''l7'' ''2026-01-07'',
            ReactivateIdentity ''i1'' ''l8'' ''2026-01-08'',
            ExpireOldIdentities ''2032-01-01'',
            ProcessKyc ''r1'' ''2032-01-02'' ''l9'' ''2032-01-02'',
            RevokeIdentity ''i1'' ''again'' ''l10'' ''2032-01-03'']
           (snd (revoke_identity ''i1'' ''fraud'' ''l5'' ''2026-01-05'' dave_db))))
     = [REVOKED, SUSPENDED]"
proof -
  let ?d = "snd (revoke_identity ''i1'' ''fraud'' ''l5'' ''2026-01-05'' dave_db)"
  let ?cs = "[CreateIdentity ''Eve Black'' ''eve@example.com'' None ''i2'' ''2026-01-06''
                ''2031-01-06'' ''l6'' ''2026-01-06'',
              SuspendIdentity ''i2'' ''under review'' ''l7'' ''2026-01-07'',
              ReactivateIdentity ''i1'' ''l8'' ''2026-01-08'',
              ExpireOldIdentities ''2032-01-01'',
              ProcessKyc ''r1'' ''2032-01-02'' ''l9'' ''2032-01-02'',
              RevokeIdentity ''i1'' ''again'' ''l10'' ''2032-01-03'']"
  have i: "identities ?d = [dave_identity\<lparr>status := REVOKED\<rparr>]"
    by (simp add: dave_defs eval_defs)
  have h1: "distinct (map identity_id (identities ?d))"
    and h2: "0 < length (identities ?d)"
    and s: "status (identities ?d ! 0) = REVOKED"
    and k: "identity_id (identities ?d ! 0) = ''i1''"
    unfolding i by (simp_all add: dave_defs)
  have h3: "\<forall>c \<in> set ?cs. \<not> suspends (identity_id (identities ?d ! 0)) c"
    unfolding k by simp
  from terminal_status_kept_without_suspend [OF h1 h2 h3, of sample_env] s
  have 0: "status (identities (run sample_env ?cs ?d) ! 0) = REVOKED"
    by blast
  have 1: "length (identities (run sample_env ?cs ?d)) = 2"
    "status (identities (run sample_env ?cs ?d) ! 1) = SUSPENDED"
    by (simp_all add: dave_defs eval_defs)
  have "map status (identities (run sample_env ?cs ?d)) = [REVOKED, SUSPENDED]"
  proof (rule nth_equalityI)
    show "length (map status (identities (run sample_env ?cs ?d))) = length [REVOKED, SUSPENDED]"
      using 1 by simp
    fix j assume "j < length (map status (identities (run sample_env ?cs ?d)))"
    with 1 have "j = 0 \<or> j = 1" by auto
    then show "map status (identities (run sample_env ?cs ?d)) ! j = [REVOKED, SUSPENDED] ! j"
      using 0 1 by auto
  qed
  moreover have "map status (identities ?d) = [REVOKED]"
    unfolding i by simp
  ultimately show ?thesis by blast
qed

text \<open>
  C8.  \<open>expire_old_identities\<close> does not write to the audit log.  In Dave's database a
  sweep at a time after his identity's expiry changes one row to EXPIRED and returns
  1, and the audit log keeps its four entries.  (Every other mutating function that
  returns has appended one entry, \<open>logging_calls_append_one\<close>, and every call leaves
  the entries that were there in place, \<open>run_audit_append_only\<close>.)
\<close>

theorem expire_old_identities_writes_no_log:
  "fst (expire_old_identities ''2032-01-01'' dave_db) = Inr 1
   \<and> map status (identities dave_db) = [ACTIVE]
   \<and> map status (identities (snd (expire_old_identities ''2032-01-01'' dave_db))) = [EXPIRED]
   \<and> audit_log (snd (expire_old_identities ''2032-01-01'' dave_db)) = audit_log dave_db
   \<and> length (audit_log dave_db) = 4"
  by (simp add: dave_defs eval_defs)

text \<open>
  C9.  For an existing identity, two \<open>revoke_identity\<close> calls in a row both return
  \<open>True\<close> (the ids generated for their log entries being new, as \<open>uuid4\<close> makes them),
  the identity's row then has status REVOKED, and the second call leaves the
  identities table as the first one left it.  For an existing identity whose status is
  not SUSPENDED, \<open>reactivate_identity\<close> raises the invalid-state error and changes
  nothing.
\<close>

theorem revoke_twice_reactivate_guard:
  assumes "find_identity d iid = Some row"
  shows "(lid1 \<notin> set (map log_id (audit_log d)) \<and> lid2 \<notin> set (map log_id (audit_log d))
            \<and> lid2 \<noteq> lid1 \<longrightarrow>
          fst (revoke_identity iid reason1 lid1 lts1 d) = Inr True
          \<and> fst (revoke_identity iid reason2 lid2 lts2
                   (snd (revoke_identity iid reason1 lid1 lts1 d))) = Inr True
          \<and> find_identity (snd (revoke_identity iid reason2 lid2 lts2
                   (snd (revoke_identity iid reason1 lid1 lts1 d)))) iid
               = Some (row\<lparr>status := REVOKED\<rparr>)
          \<and> identities (snd (revoke_identity iid reason2 lid2 lts2
                   (snd (revoke_identity iid reason1 lid1 lts1 d))))
               = identities (snd (revoke_identity iid reason1 lid1 lts1 d)))
         \<and> (status row \<noteq> SUSPENDED \<longrightarrow>
              reactivate_identity iid lid lts d = (Inl InvalidState, d))"
proof -
  have B: "status row \<noteq> SUSPENDED \<longrightarrow> reactivate_identity iid lid lts d = (Inl InvalidState, d)"
    using assms by (simp add: reactivate_identity_def)
  have A: "fst (revoke_identity iid reason1 lid1 lts1 d) = Inr True
          \<and> fst (revoke_identity iid reason2 lid2 lts2
                   (snd (revoke_identity iid reason1 lid1 lts1 d))) = Inr True
          \<and> find_identity (snd (revoke_identity iid reason2 lid2 lts2
                   (snd (revoke_identity iid reason1 lid1 lts1 d)))) iid
               = Some (row\<lparr>status := REVOKED\<rparr>)
          \<and> identities (snd (revoke_identity iid reason2 lid2 lts2
                   (snd (revoke_identity iid reason1 lid1 lts1 d))))
               = identities (snd (revoke_identity iid reason1 lid1 lts1 d))"
    if f: "lid1 \<notin> set (map log_id (audit_log d))" "lid2 \<notin> set (map log_id (audit_log d))"
          "lid2 \<noteq> lid1"
  proof -
    let ?e1 = "\<lparr>log_id = lid1, log_identity_id = iid, action = ''REVOKE_IDENTITY'',
                 details = ''Reason: '' @ reason1, timestamp = lts1\<rparr>"
    let ?d1 = "(set_status iid REVOKED d)\<lparr>audit_log := audit_log d @ [?e1]\<rparr>"
    have 1: "revoke_identity iid reason1 lid1 lts1 d = (Inr True, ?d1)"
      using assms f(1) by (simp add: revoke_identity_def then_log_fresh set_status_audit)
    have F1: "find_identity ?d1 iid = Some (row\<lparr>status := REVOKED\<rparr>)"
      using assms by (simp add: find_set_status)
    have L: "lid2 \<notin> set (map log_id (audit_log ?d1))"
      using f(2,3) by simp
    let ?e2 = "\<lparr>log_id = lid2, log_identity_id = iid, action = ''REVOKE_IDENTITY'',
                 details = ''Reason: '' @ reason2, timestamp = lts2\<rparr>"
    let ?d2 = "(set_status iid REVOKED ?d1)\<lparr>audit_log := audit_log ?d1 @ [?e2]\<rparr>"
    have 2: "revoke_identity iid reason2 lid2 lts2 ?d1 = (Inr True, ?d2)"
      unfolding revoke_identity_def F1 using L
      by (simp add: then_log_fresh set_status_audit del: set_status_twice)
    have F2: "find_identity ?d2 iid = Some (row\<lparr>status := REVOKED\<rparr>)"
      using assms by (simp add: find_set_status set_status_audit)
    have I: "identities ?d2 = identities ?d1"
      by (simp add: set_status_def comp_def)
    show ?thesis
      unfolding 1 snd_conv fst_conv 2 using F2 I by simp
  qed
  from A B show ?thesis by blast
qed

theorem revoke_twice_reactivate_guard_witness:
  "find_identity dave_db ''i1'' = Some dave_identity
   \<and> fst (revoke_identity ''i1'' ''fraud'' ''l5'' ''2026-01-05'' dave_db) = Inr True
   \<and> fst (revoke_identity ''i1'' ''again'' ''l6'' ''2026-01-06''
            (snd (revoke_identity ''i1'' ''fraud'' ''l5'' ''2026-01-05'' dave_db))) = Inr True
   \<and> find_identity (snd (revoke_identity ''i1'' ''again'' ''l6'' ''2026-01-06''
            (snd (revoke_identity ''i1'' ''fraud'' ''l5'' ''2026-01-05'' dave_db)))) ''i1''
        = Some (dave_identity\<lparr>status := REVOKED\<rparr>)
   \<and> reactivate_identity ''i1'' ''l5'' ''2026-01-05'' dave_db = (Inl InvalidState, dave_db)"
proof -
  have "''l5'' \<notin> set (map log_id (audit_log dave_db))"
    "''l6'' \<notin> set (map log_id (audit_log dave_db))" "''l6'' \<noteq> ''l5''"
    "status dave_identity \<noteq> SUSPENDED"
    by (simp_all add: dave_defs)
  then show ?thesis
    using revoke_twice_reactivate_guard [OF dave_identity_found, of "''l5''" "''l6''"]
      dave_identity_found
    by simp
qed

text \<open>
  C10.  For every database and every identity id, existing or not, the read-only
  operations \<open>check_verification_level\<close>, \<open>get_documents\<close>, \<open>get_kyc_history\<close>,
  \<open>get_audit_trail\<close>, \<open>list_identities\<close>, \<open>search_identity\<close>, \<open>identity_stats\<close> and
  \<open>generate_identity_report\<close> leave the database as it was.
\<close>

theorem read_only_operations_keep_db:
  "snd (check_verification_level iid d) = d
   \<and> snd (get_documents iid d) = d
   \<and> snd (get_kyc_history iid d) = d
   \<and> snd (get_audit_trail iid d) = d
   \<and> snd (list_identities st lvl d) = d
   \<and> snd (search_identity q d) = d
   \<and> snd (identity_stats d) = d
   \<and> snd (generate_identity_report iid d) = d"
  by (simp only: read_only_snd)

theorem read_only_operations_keep_db_witness:
  "snd (check_verification_level ''i1'' dave_db) = dave_db
   \<and> snd (get_documents ''i1'' dave_db) = dave_db
   \<and> snd (get_kyc_history ''i1'' dave_db) = dave_db
   \<and> snd (get_audit_trail ''i1'' dave_db) = dave_db
   \<and> snd (list_identities (Some ''active'') None dave_db) = dave_db
   \<and> snd (search_identity ''Dave'' dave_db) = dave_db
   \<and> snd (identity_stats dave_db) = dave_db
   \<and> snd (generate_identity_report ''i1'' dave_db) = dave_db"
  using read_only_operations_keep_db [of "''i1''" dave_db "Some ''active''" None "''Dave''"]
  by simp

end
